theory Spec2Isabelle
  imports Main "HOL-Library.Sublist"
begin

section \<open>beatsfmt: license header injection in front of goimports\<close>

text \<open>
  A shallow embedding of the beatsfmt command (package main), in the variant that
  resolves the license header from a file; the variant with the header built in has the
  same output, diff and walk code. A Go \<^verbatim>\<open>[]byte\<close> and a Go \<^verbatim>\<open>string\<close> are
  both byte sequences: they are lists of \<^typ>\<open>char\<close>, whose values are the 256 bytes.
  A Go \<^verbatim>\<open>error\<close> is its message; a function that returns \<^verbatim>\<open>(T, error)\<close> returns
  a sum, \<open>Inl\<close> the error, and one that returns only an \<^verbatim>\<open>error\<close> returns an option,
  \<open>None\<close> for \<^verbatim>\<open>nil\<close>.
\<close>

type_synonym bytes = string

datatype error = Error string

fun Error_msg :: "error \<Rightarrow> string" where
  "Error_msg (Error m) = m"

record settings =
  license :: string
  licSearchCWD :: bool
  srcDir :: string
  overwrite :: bool
  allErrors :: bool
  diff :: bool
  list :: bool

definition licenseFileName :: string where
  "licenseFileName = ''.go_license_header''"

definition xpackLicenseFileName :: string where
  "xpackLicenseFileName = ''.go_xpack_license_header''"

subsection \<open>Strings\<close>

text \<open>\<^verbatim>\<open>strings.HasPrefix(s, prefix)\<close> and \<^verbatim>\<open>strings.HasSuffix(s, suffix)\<close>.\<close>

definition strings_HasPrefix :: "string \<Rightarrow> string \<Rightarrow> bool" where
  "strings_HasPrefix s p = (length p \<le> length s \<and> take (length p) s = p)"

definition strings_HasSuffix :: "string \<Rightarrow> string \<Rightarrow> bool" where
  "strings_HasSuffix s x = (length x \<le> length s \<and> drop (length s - length x) s = x)"

text \<open>
  \<^verbatim>\<open>strings.Split(s, "\n")\<close>: the pieces of \<open>s\<close> between its newline bytes. There is
  one piece more than there are newlines, so the result is never empty, and a text that
  ends in a newline has an empty last piece.
\<close>

fun strings_Split :: "string \<Rightarrow> string list" where
  "strings_Split [] = [[]]"
| "strings_Split (c # cs) =
     (if c = CHR ''\<newline>'' then [] # strings_Split cs
      else (c # hd (strings_Split cs)) # tl (strings_Split cs))"

subsection \<open>The header stage\<close>

text \<open>
  The loop at the head of \<^verbatim>\<open>licenseHeader\<close>: every line of the header followed by a
  newline, appended to the blob in order.
\<close>

definition headerBytes :: "string list \<Rightarrow> bytes" where
  "headerBytes header = foldl (\<lambda>hb line. (hb @ line) @ ''\<newline>'') [] header"

text \<open>
  Modelled from the spec: the scan of \<^verbatim>\<open>licensing.ContainsHeader\<close>, of the imported
  package go-licenser, over the lines of a document (spec 4.2: a prefix-oriented scan
  over its leading lines). The lines are the text up to each newline, and the rest after
  the last newline when it is not empty.
\<close>

function scanLines :: "bytes \<Rightarrow> string list" where
  "scanLines buf =
     (if buf = [] then []
      else takeWhile (\<lambda>c. c \<noteq> CHR ''\<newline>'') buf
           # scanLines (drop 1 (dropWhile (\<lambda>c. c \<noteq> CHR ''\<newline>'') buf)))"
  by pat_completeness auto
termination
proof (relation "measure length")
  show "wf (measure (length :: bytes \<Rightarrow> nat))" by simp
next
  fix buf :: bytes
  assume ne: "buf \<noteq> []"
  define rest where "rest = dropWhile (\<lambda>c. c \<noteq> CHR ''\<newline>'') buf"
  have le: "length rest \<le> length buf"
    unfolding rest_def by (rule length_dropWhile_le)
  have "length (drop 1 rest) < length buf"
  proof (cases rest)
    case Nil
    with ne show ?thesis by simp
  next
    case (Cons c cs)
    with le show ?thesis by simp
  qed
  then show "(drop 1 (dropWhile (\<lambda>c. c \<noteq> CHR ''\<newline>'') buf), buf) \<in> measure length"
    unfolding rest_def by simp
qed

declare scanLines.simps [simp del]

text \<open>
  Modelled from the spec: \<^verbatim>\<open>licensing.ContainsHeader\<close> of the imported package
  go-licenser, whose source this repository does not hold. The spec (4.2): the document
  contains the header if a prefix-oriented scan over its leading lines matches the
  header's line sequence exactly, line-for-line, in order. The scan is
  \<^const>\<open>scanLines\<close>; a document with fewer lines than the header does not contain it.
\<close>

definition ContainsHeader :: "bytes \<Rightarrow> string list \<Rightarrow> bool" where
  "ContainsHeader buf headerLines =
     (let found = scanLines buf
      in if length found < length headerLines then False
         else take (length headerLines) found = headerLines)"

text \<open>
  Modelled from the spec: \<^verbatim>\<open>licensing.RewriteWithHeader\<close> of the same package. The
  spec (4.2): the header's byte blob is prepended directly to the front of the document,
  always at byte offset 0.
\<close>

definition RewriteWithHeader :: "bytes \<Rightarrow> bytes \<Rightarrow> bytes" where
  "RewriteWithHeader src header = header @ src"

text \<open>
  \<^verbatim>\<open>licenseHeader(header)\<close> builds the blob once and returns the stage, a function of
  the file name and the source. The stage never fails.
\<close>

definition licenseHeader :: "string list \<Rightarrow> string \<Rightarrow> bytes \<Rightarrow> error + bytes" where
  "licenseHeader header filename src =
     (if ContainsHeader src header then Inr src
      else Inr (RewriteWithHeader src (headerBytes header)))"

subsection \<open>The operating system\<close>

text \<open>
  What \<^verbatim>\<open>os.Stat\<close> tells the program about a file: its base name, whether its mode is
  that of a regular file, and whether it is a directory.
\<close>

record FileInfo =
  Name :: string
  Mode_IsRegular :: bool
  IsDir :: bool

datatype writer = os_Stdout | Writer string

datatype reader = os_Stdin | File string

text \<open>
  The calls the program makes on its environment, in the order it makes them. The two
  \<^verbatim>\<open>fmt\<close> print functions and \<^verbatim>\<open>out.Write\<close> are \<open>Write\<close> events on the stream
  they write to; \<^verbatim>\<open>log.Println\<close> is \<open>Log\<close>.
\<close>

datatype event =
    Stat string
  | ReadFile string
  | Open string
  | ReadAll reader
  | Write writer bytes
  | Log string
  | WriteFile string bytes
  | TempFile
  | TempWrite string bytes
  | Remove string
  | Exec string string

text \<open>
  The answers of the environment. \<^verbatim>\<open>filepath.Abs\<close> returns a cleaned absolute path,
  which is held as the list of its components (\<open>[]\<close> is the root directory);
  \<open>filepath_Join\<close> and \<open>filepath_Base\<close> are the library functions on the raw names
  from which the target name is built. \<open>exec_CombinedOutput fOld fNew\<close> is the result of
  running \<^verbatim>\<open>diff -u fOld fNew\<close>: its output and its exit error. \<open>filepath_Walk_entries\<close>
  is the sequence of calls \<^verbatim>\<open>filepath.Walk\<close> makes on its function argument: each entry
  with its path, and either its file info or the error met on it.

  The environment may change as the program acts on it, so the program reads it as a
  function of the events so far.
\<close>

record env =
  os_Getenv :: "string \<Rightarrow> string"
  filepath_Abs :: "string \<Rightarrow> error + string list"
  filepath_Join :: "string \<Rightarrow> string \<Rightarrow> string"
  filepath_Base :: "string \<Rightarrow> string"
  os_Stat :: "string \<Rightarrow> error + FileInfo"
  ioutil_ReadFile :: "string \<Rightarrow> error + bytes"
  os_Open :: "string \<Rightarrow> error option"
  ioutil_ReadAll :: "reader \<Rightarrow> error + bytes"
  imports_Process :: "string \<Rightarrow> bytes \<Rightarrow> bool \<Rightarrow> error + bytes"
  fmt_Sprint :: "writer \<Rightarrow> string"
  io_Write :: "writer \<Rightarrow> bytes \<Rightarrow> error option"
  ioutil_WriteFile :: "string \<Rightarrow> bytes \<Rightarrow> error option"
  ioutil_TempFile :: "error + string"
  file_Write :: "string \<Rightarrow> bytes \<Rightarrow> error option"
  exec_CombinedOutput :: "string \<Rightarrow> string \<Rightarrow> bytes \<times> error option"
  filepath_Walk_entries :: "string \<Rightarrow> (string \<times> (error + FileInfo)) list"

type_synonym os = "event list \<Rightarrow> env"

subsection \<open>Absolute paths\<close>

text \<open>
  The string of an absolute path, and \<^verbatim>\<open>filepath.Dir\<close>, \<^verbatim>\<open>filepath.Base\<close> and
  \<^verbatim>\<open>filepath.Join(dir, name)\<close> on absolute paths: the parent of the root is the root,
  and the base name of the root is the separator.
\<close>

definition abs_string :: "string list \<Rightarrow> string" where
  "abs_string p = (if p = [] then ''/'' else concat (map (\<lambda>c. CHR ''/'' # c) p))"

definition abs_Dir :: "string list \<Rightarrow> string list" where
  "abs_Dir p = butlast p"

definition abs_Base :: "string list \<Rightarrow> string" where
  "abs_Base p = (if p = [] then ''/'' else last p)"

definition abs_Join :: "string list \<Rightarrow> string \<Rightarrow> string list" where
  "abs_Join p name = p @ [name]"

subsection \<open>The header search\<close>

text \<open>
  The loop of \<^verbatim>\<open>processFile\<close> that walks from \<open>dir\<close> towards \<open>root\<close>. It returns the
  path of the header file it found, or the empty string, which \<^verbatim>\<open>settings.license\<close>
  holds when the loop starts.
\<close>

function searchLoop :: "os \<Rightarrow> string \<Rightarrow> string \<Rightarrow> string list \<Rightarrow> event list
    \<Rightarrow> string \<times> event list" where
  "searchLoop os root licenseType dir tr =
     (if abs_string dir \<noteq> root \<and> abs_string dir \<noteq> ''/'' then
        (let licenseType' =
               (if abs_Base dir = ''x-pack'' then xpackLicenseFileName else licenseType);
             license = abs_string (abs_Join dir licenseType');
             tr' = tr @ [Stat license]
         in case os_Stat (os tr) license of
              Inl err \<Rightarrow> searchLoop os root licenseType' (abs_Dir dir) tr'
            | Inr fi \<Rightarrow>
                if Mode_IsRegular fi then (license, tr')
                else searchLoop os root licenseType' (abs_Dir dir) tr')
      else ([], tr))"
  by pat_completeness auto
termination
proof (relation "measure (\<lambda>(os, root, licenseType, dir, tr). length dir)")
  show "wf (measure (\<lambda>(os :: os, root :: string, licenseType :: string,
                       dir :: string list, tr :: event list). length dir))"
    by simp
next
  fix os :: os and root licenseType :: string and dir :: "string list" and tr :: "event list"
    and x xa xb xc
  assume "abs_string dir \<noteq> root \<and> abs_string dir \<noteq> ''/''"
  then have "dir \<noteq> []" by (auto simp: abs_string_def)
  then show "((os, root, x, abs_Dir dir, xb), os, root, licenseType, dir, tr)
      \<in> measure (\<lambda>(os, root, licenseType, dir, tr). length dir)"
    by (simp add: abs_Dir_def)
next
  fix os :: os and root licenseType :: string and dir :: "string list" and tr :: "event list"
    and x xa xb xc
  assume "abs_string dir \<noteq> root \<and> abs_string dir \<noteq> ''/''"
  then have "dir \<noteq> []" by (auto simp: abs_string_def)
  then show "((os, root, x, abs_Dir dir, xb), os, root, licenseType, dir, tr)
      \<in> measure (\<lambda>(os, root, licenseType, dir, tr). length dir)"
    by (simp add: abs_Dir_def)
qed

declare searchLoop.simps [simp del]

subsection \<open>processFile\<close>

definition isFile :: "os \<Rightarrow> string \<Rightarrow> event list \<Rightarrow> bool \<times> event list" where
  "isFile os name tr =
     ((case os_Stat (os tr) name of Inl err \<Rightarrow> False | Inr fi \<Rightarrow> Mode_IsRegular fi),
      tr @ [Stat name])"

definition isDir :: "os \<Rightarrow> string \<Rightarrow> event list \<Rightarrow> bool \<times> event list" where
  "isDir os name tr =
     ((case os_Stat (os tr) name of Inl err \<Rightarrow> False | Inr fi \<Rightarrow> IsDir fi),
      tr @ [Stat name])"

text \<open>
  The head of \<^verbatim>\<open>processFile\<close>: the target name, which is the file name unless a
  source directory is set. The condition evaluates left to right and stops as soon as it
  is decided.
\<close>

definition processFile_target :: "os \<Rightarrow> settings \<Rightarrow> string \<Rightarrow> event list
    \<Rightarrow> string \<times> event list" where
  "processFile_target os settings filename tr =
     (let dir = srcDir settings in
      if dir \<noteq> [] then
        (let (file, tr1) = isFile os dir tr in
         if file then (dir, tr1)
         else
           (let (isdir, tr2) = isDir os dir tr1 in
            if \<not> isdir \<and> strings_HasSuffix dir ''.go'' then (dir, tr2)
            else (filepath_Join (os tr2) dir (filepath_Base (os tr2) filename), tr2)))
      else (filename, tr))"

text \<open>
  The block of \<^verbatim>\<open>processFile\<close> that runs when no header file is set: the root, the
  start, and the loop. It returns the new value of \<^verbatim>\<open>settings.license\<close>.
\<close>

definition processFile_search :: "os \<Rightarrow> settings \<Rightarrow> string \<Rightarrow> event list
    \<Rightarrow> (error + string) \<times> event list" where
  "processFile_search os settings target tr =
     (let root = (case filepath_Abs (os tr) (os_Getenv (os tr) ''GOPATH'') of
                    Inl err \<Rightarrow> [] | Inr p \<Rightarrow> abs_string p)
      in case (if licSearchCWD settings then filepath_Abs (os tr) ''.''
               else filepath_Abs (os tr) target) of
           Inl err \<Rightarrow> (Inl err, tr)
         | Inr start \<Rightarrow>
             (let root' = (if root = [] then ''.'' else root);
                  (lic, tr') = searchLoop os root' licenseFileName (abs_Dir start) tr
              in (Inr lic, tr')))"

type_synonym formatter = "string \<Rightarrow> bytes \<Rightarrow> error + bytes"

text \<open>
  \<^verbatim>\<open>formatSource(allErrors)\<close>: the stage that calls \<^verbatim>\<open>imports.Process\<close>, here on the
  environment in which the stage runs.
\<close>

definition formatSource :: "env \<Rightarrow> bool \<Rightarrow> formatter" where
  "formatSource e allErrs filename src = imports_Process e filename src allErrs"

fun applyFormatters :: "formatter list \<Rightarrow> string \<Rightarrow> bytes \<Rightarrow> error + bytes" where
  "applyFormatters [] filename contents = Inr contents"
| "applyFormatters (f # fs) filename contents =
     (case f filename contents of
        Inl err \<Rightarrow> Inl err
      | Inr contents' \<Rightarrow> applyFormatters fs filename contents')"

text \<open>
  \<^verbatim>\<open>writeTmpFile\<close>: the deferred function closes the file and, unless the content was
  written, removes it.
\<close>

definition writeTmpFile :: "os \<Rightarrow> bytes \<Rightarrow> event list \<Rightarrow> (error + string) \<times> event list" where
  "writeTmpFile os content tr =
     (case ioutil_TempFile (os tr) of
        Inl err \<Rightarrow> (Inl err, tr @ [TempFile])
      | Inr f \<Rightarrow>
          (let tr1 = tr @ [TempFile] in
           case file_Write (os tr1) f content of
             Some err \<Rightarrow> (Inl err, tr1 @ [TempWrite f content, Remove f])
           | None \<Rightarrow> (Inr f, tr1 @ [TempWrite f content])))"

text \<open>
  \<^verbatim>\<open>diff(old, new)\<close>, which returns the pair of the data and the error. The deferred
  removals run when it returns, the last deferred first.
\<close>

definition diffBytes :: "os \<Rightarrow> bytes \<Rightarrow> bytes \<Rightarrow> event list
    \<Rightarrow> (bytes \<times> error option) \<times> event list" where
  "diffBytes os old new tr =
     (case writeTmpFile os old tr of
        (Inl err, tr1) \<Rightarrow> (([], Some err), tr1)
      | (Inr fOld, tr1) \<Rightarrow>
          (case writeTmpFile os new tr1 of
             (Inl err, tr2) \<Rightarrow> (([], Some err), tr2 @ [Remove fOld])
           | (Inr fNew, tr2) \<Rightarrow>
               (let (data, err) = exec_CombinedOutput (os tr2) fOld fNew;
                    err' = (if length data > 0 then None else err)
                in ((data, err'), tr2 @ [Exec fOld fNew, Remove fNew, Remove fOld]))))"

text \<open>
  The blocks of \<^verbatim>\<open>processFile\<close> between the search and the comparison: the stages,
  and the source read from \<open>in\<close> or, when it is \<^verbatim>\<open>nil\<close>, from the file.
\<close>

definition processFile_formatters :: "os \<Rightarrow> string \<Rightarrow> event list
    \<Rightarrow> (error + formatter list) \<times> event list" where
  "processFile_formatters os lic tr =
     (if lic \<noteq> [] then
        (case ioutil_ReadFile (os tr) lic of
           Inl err \<Rightarrow> (Inl err, tr @ [ReadFile lic])
         | Inr contents \<Rightarrow> (Inr [licenseHeader (strings_Split contents)], tr @ [ReadFile lic]))
      else (Inr [], tr))"

definition processFile_read :: "os \<Rightarrow> string \<Rightarrow> reader option \<Rightarrow> event list
    \<Rightarrow> (error + bytes) \<times> event list" where
  "processFile_read os filename inp tr =
     (case (case inp of
              None \<Rightarrow>
                (case os_Open (os tr) filename of
                   Some err \<Rightarrow> (Inl err, tr @ [Open filename])
                 | None \<Rightarrow> (Inr (File filename), tr @ [Open filename]))
            | Some r \<Rightarrow> (Inr r, tr)) of
        (Inl err, tr1) \<Rightarrow> (Inl err, tr1)
      | (Inr r, tr1) \<Rightarrow> (ioutil_ReadAll (os tr1) r, tr1 @ [ReadAll r]))"

text \<open>
  \<^verbatim>\<open>processFile\<close> up to the call of \<^verbatim>\<open>applyFormatters\<close>: the source read and the
  result of the stages, or the error on which \<^verbatim>\<open>processFile\<close> returns.
\<close>

definition processFile_pipeline :: "os \<Rightarrow> settings \<Rightarrow> string \<Rightarrow> reader option \<Rightarrow> event list
    \<Rightarrow> (error + bytes \<times> bytes) \<times> event list" where
  "processFile_pipeline os settings filename inp tr =
     (let (target, tr1) = processFile_target os settings filename tr in
      case (if license settings = [] then processFile_search os settings target tr1
            else (Inr (license settings), tr1)) of
        (Inl err, tr2) \<Rightarrow> (Inl err, tr2)
      | (Inr lic, tr2) \<Rightarrow>
          (case processFile_formatters os lic tr2 of
             (Inl err, tr3) \<Rightarrow> (Inl err, tr3)
           | (Inr formatters, tr3) \<Rightarrow>
               (case processFile_read os filename inp tr3 of
                  (Inl err, tr4) \<Rightarrow> (Inl err, tr4)
                | (Inr src, tr4) \<Rightarrow>
                    (case applyFormatters
                            (formatters @ [formatSource (os tr4) (allErrors settings)])
                            target src of
                       Inl err \<Rightarrow> (Inl err, tr4)
                     | Inr res \<Rightarrow> (Inr (src, res), tr4)))))"

text \<open>
  The rest of \<^verbatim>\<open>processFile\<close>, from the comparison of the source with the result.
  \<^verbatim>\<open>fmt.Println(out, filename)\<close> prints its two operands, separated by a space and
  followed by a newline, on the standard output; \<^verbatim>\<open>fmt.Printf\<close> prints there too.
\<close>

definition processFile_output :: "os \<Rightarrow> settings \<Rightarrow> string \<Rightarrow> writer \<Rightarrow> bytes \<Rightarrow> bytes
    \<Rightarrow> event list \<Rightarrow> error option \<times> event list" where
  "processFile_output os settings filename out src res tr =
     (if src = res then
        (if \<not> list settings \<and> \<not> overwrite settings \<and> \<not> diff settings
         then (io_Write (os tr) out res, tr @ [Write out res])
         else (None, tr))
      else
        (let tr1 = (if list settings
                    then tr @ [Write os_Stdout
                                 (fmt_Sprint (os tr) out @ '' '' @ filename @ ''\<newline>'')]
                    else tr)
         in case (if overwrite settings
                  then (ioutil_WriteFile (os tr1) filename res, tr1 @ [WriteFile filename res])
                  else (None, tr1)) of
              (Some err, tr2) \<Rightarrow> (Some err, tr2)
            | (None, tr2) \<Rightarrow>
                (case (if diff settings then
                         (case diffBytes os src res tr2 of
                            ((data, Some err), tr3) \<Rightarrow>
                              (Some (Error (''computing diff: '' @ Error_msg err)), tr3)
                          | ((data, None), tr3) \<Rightarrow>
                              (None, tr3 @ [Write os_Stdout
                                              (''diff '' @ filename @ '' gofmt/'' @ filename
                                               @ ''\<newline>''),
                                            Write out data]))
                       else (None, tr2)) of
                   (Some err, tr4) \<Rightarrow> (Some err, tr4)
                 | (None, tr4) \<Rightarrow>
                     (if \<not> list settings \<and> \<not> overwrite settings \<and> \<not> diff settings
                      then (None, tr4 @ [Write out res])
                      else (None, tr4)))))"

definition processFile :: "os \<Rightarrow> settings \<Rightarrow> string \<Rightarrow> reader option \<Rightarrow> writer \<Rightarrow> bool
    \<Rightarrow> event list \<Rightarrow> error option \<times> event list" where
  "processFile os settings filename inp out stdin tr =
     (case processFile_pipeline os settings filename inp tr of
        (Inl err, tr1) \<Rightarrow> (Some err, tr1)
      | (Inr (src, res), tr1) \<Rightarrow> processFile_output os settings filename out src res tr1)"

subsection \<open>The walk and main\<close>

definition isGoFile :: "FileInfo \<Rightarrow> bool" where
  "isGoFile fi =
     (let name = Name fi
      in Mode_IsRegular fi \<and> \<not> strings_HasPrefix name ''.'' \<and> strings_HasSuffix name ''.go'')"

text \<open>
  \<^verbatim>\<open>visitFile(settings)\<close>, the function handed to \<^verbatim>\<open>filepath.Walk\<close>. The file info
  \<open>f\<close> and the error \<open>err\<close> of an entry come as one value: the info is read only when
  the error is \<^verbatim>\<open>nil\<close>. The function returns \<^verbatim>\<open>nil\<close> on every path.
\<close>

definition visitFile :: "os \<Rightarrow> settings \<Rightarrow> string \<Rightarrow> error + FileInfo \<Rightarrow> event list
    \<Rightarrow> error option \<times> event list" where
  "visitFile os settings path f tr =
     (let (err, tr1) =
            (case f of
               Inl err \<Rightarrow> (Some err, tr)
             | Inr fi \<Rightarrow>
                 if isGoFile fi then processFile os settings path None os_Stdout False tr
                 else (None, tr))
      in case err of
           Some e \<Rightarrow> (None, tr1 @ [Log (Error_msg e)])
         | None \<Rightarrow> (None, tr1))"

text \<open>
  \<^verbatim>\<open>filepath.Walk(path, walkFn)\<close> of the standard library, on the entries it meets:
  it calls the function on each and stops on the first error the function returns.
\<close>

fun walkEntries :: "(string \<Rightarrow> error + FileInfo \<Rightarrow> event list \<Rightarrow> error option \<times> event list)
    \<Rightarrow> (string \<times> (error + FileInfo)) list \<Rightarrow> event list \<Rightarrow> error option \<times> event list" where
  "walkEntries walkFn [] tr = (None, tr)"
| "walkEntries walkFn ((path, f) # entries) tr =
     (case walkFn path f tr of
        (Some err, tr1) \<Rightarrow> (Some err, tr1)
      | (None, tr1) \<Rightarrow> walkEntries walkFn entries tr1)"

definition filepath_Walk :: "os \<Rightarrow> string
    \<Rightarrow> (string \<Rightarrow> error + FileInfo \<Rightarrow> event list \<Rightarrow> error option \<times> event list)
    \<Rightarrow> event list \<Rightarrow> error option \<times> event list" where
  "filepath_Walk os root walkFn tr = walkEntries walkFn (filepath_Walk_entries (os tr) root) tr"

text \<open>
  The loop of \<^verbatim>\<open>main\<close> over the paths of the command line, with the exit code so far.
\<close>

fun main_paths :: "os \<Rightarrow> settings \<Rightarrow> string list \<Rightarrow> int \<Rightarrow> event list \<Rightarrow> int \<times> event list" where
  "main_paths os settings [] exitCode tr = (exitCode, tr)"
| "main_paths os settings (path # paths) exitCode tr =
     (case os_Stat (os tr) path of
        Inl err \<Rightarrow>
          main_paths os settings paths 1 (tr @ [Stat path, Log (Error_msg err)])
      | Inr fi \<Rightarrow>
          if IsDir fi then
            (case filepath_Walk os path (visitFile os settings) (tr @ [Stat path]) of
               (Some err, tr1) \<Rightarrow> main_paths os settings paths 1 tr1
             | (None, tr1) \<Rightarrow> main_paths os settings paths exitCode tr1)
          else
            (case processFile os settings path None os_Stdout False (tr @ [Stat path]) of
               (Some err, tr1) \<Rightarrow>
                 main_paths os settings paths 1 (tr1 @ [Log (Error_msg err)])
             | (None, tr1) \<Rightarrow> main_paths os settings paths exitCode tr1))"

text \<open>
  \<^verbatim>\<open>main\<close> after the flags are parsed into the settings and the paths. It returns the
  code with which the process exits.
\<close>

definition main :: "os \<Rightarrow> settings \<Rightarrow> string list \<Rightarrow> event list \<Rightarrow> int \<times> event list" where
  "main os settings paths tr =
     (if length paths = 0 then
        (case processFile os settings ''<standard input>'' (Some os_Stdin) os_Stdout True tr of
           (Some err, tr1) \<Rightarrow> (1, tr1)
         | (None, tr1) \<Rightarrow> (0, tr1))
      else main_paths os settings paths 0 tr)"

subsection \<open>What the search is to examine\<close>

text \<open>
  The directories from \<open>dir\<close> upwards, \<open>dir\<close> first and the root directory last; those of
  them the walk is to examine, which end before the first that is the search root or the
  root directory; the header name in force once the directories \<open>visited\<close> have been
  entered; and the path checked in the \<open>i\<close>-th directory of a walk.
\<close>

definition ancestors :: "string list \<Rightarrow> string list list" where
  "ancestors dir = map (\<lambda>n. take n dir) (rev [0..<Suc (length dir)])"

definition searchDirs :: "string \<Rightarrow> string list \<Rightarrow> string list list" where
  "searchDirs root dir =
     takeWhile (\<lambda>d. abs_string d \<noteq> root \<and> abs_string d \<noteq> ''/'') (ancestors dir)"

definition headerName :: "string \<Rightarrow> string list list \<Rightarrow> string" where
  "headerName licenseType visited =
     (if \<exists>d \<in> set visited. abs_Base d = ''x-pack'' then xpackLicenseFileName
      else licenseType)"

definition headerPath :: "string \<Rightarrow> string list list \<Rightarrow> nat \<Rightarrow> string" where
  "headerPath licenseType dirs i =
     abs_string (abs_Join (dirs ! i) (headerName licenseType (take (Suc i) dirs)))"

definition statRegular :: "env \<Rightarrow> string \<Rightarrow> bool" where
  "statRegular e name =
     (case os_Stat e name of Inl err \<Rightarrow> False | Inr fi \<Rightarrow> Mode_IsRegular fi)"

text \<open>
  The events once the first \<open>i\<close> directories of a walk have been checked, and the search
  root: the absolute form of \<^verbatim>\<open>GOPATH\<close>, or \<^verbatim>\<open>.\<close> when there is none.
\<close>

definition searchPre :: "string \<Rightarrow> string list list \<Rightarrow> event list \<Rightarrow> nat \<Rightarrow> event list" where
  "searchPre licenseType dirs tr i = tr @ map (\<lambda>j. Stat (headerPath licenseType dirs j)) [0..<i]"

definition searchRoot :: "env \<Rightarrow> string" where
  "searchRoot e =
     (case filepath_Abs e (os_Getenv e ''GOPATH'') of
        Inl err \<Rightarrow> ''.''
      | Inr p \<Rightarrow> abs_string p)"

subsection \<open>Reads, and actions in sequence\<close>

text \<open>The events that only read the environment.\<close>

fun isRead :: "event \<Rightarrow> bool" where
  "isRead (Stat name) = True"
| "isRead (ReadFile name) = True"
| "isRead (Open name) = True"
| "isRead (ReadAll r) = True"
| "isRead (Write w b) = False"
| "isRead (Log m) = False"
| "isRead (WriteFile name b) = False"
| "isRead TempFile = False"
| "isRead (TempWrite name b) = False"
| "isRead (Remove name) = False"
| "isRead (Exec a b) = False"

text \<open>
  Two actions one after the other: the second runs unless the first returned an error.
\<close>

definition andThen :: "(event list \<Rightarrow> error option \<times> event list)
    \<Rightarrow> (event list \<Rightarrow> error option \<times> event list)
    \<Rightarrow> event list \<Rightarrow> error option \<times> event list" where
  "andThen f g tr = (case f tr of (Some err, tr1) \<Rightarrow> (Some err, tr1) | (None, tr1) \<Rightarrow> g tr1)"

definition skip :: "event list \<Rightarrow> error option \<times> event list" where
  "skip tr = (None, tr)"

text \<open>The settings with exactly the given output flags.\<close>

definition onlyFlags :: "settings \<Rightarrow> bool \<Rightarrow> bool \<Rightarrow> bool \<Rightarrow> settings" where
  "onlyFlags s l w d = s\<lparr>overwrite := w, diff := d, list := l\<rparr>"

subsection \<open>A small file tree\<close>

text \<open>
  A tree to run the program on: \<^verbatim>\<open>GOPATH\<close> is \<^verbatim>\<open>/root\<close>, the working directory is
  \<^verbatim>\<open>/root/pkg/x-pack/sub\<close>, and these are the regular files, with their contents. The
  formatter leaves every source as it is, except the last, which it rejects. A walk of
  \<^verbatim>\<open>/root/bad\<close> or of \<^verbatim>\<open>/root/other\<close> meets the directory and the two files in it.
\<close>

definition demoRegular :: "(string \<times> bytes) list" where
  "demoRegular =
     [(''/root/.go_license_header'', ''// R\<newline>''),
      (''/root/pkg/.go_license_header'', ''// H1\<newline>// H2\<newline>''),
      (''/root/pkg/x-pack/.go_xpack_license_header'', ''// X\<newline>''),
      (''/root/pkg/a.go'', ''package main\<newline>''),
      (''/root/pkg/ok.go'', ''// H1\<newline>// H2\<newline>\<newline>package main\<newline>''),
      (''/root/pkg/x-pack/sub/file.go'', ''package sub\<newline>''),
      (''/root/other/doc.txt'', ''doc\<newline>''),
      (''/root/other/f.go'', ''package other\<newline>''),
      (''/root/pkg/notes.txt'', ''package notes\<newline>''),
      (''/root/bad/README.md'', ''# bad\<newline>''),
      (''/root/bad/bad.go'', ''package\<newline>'')]"

definition demoDirs :: "string list" where
  "demoDirs = [''/root'', ''/root/pkg'', ''/root/pkg/x-pack'', ''/root/pkg/x-pack/sub'',
               ''/root/other'', ''/root/bad'']"

definition demoAbsTable :: "(string \<times> string list) list" where
  "demoAbsTable =
     [(''.'', [''root'', ''pkg'', ''x-pack'', ''sub'']),
      (''/root'', [''root'']),
      (''/root/pkg/a.go'', [''root'', ''pkg'', ''a.go'']),
      (''/root/pkg/ok.go'', [''root'', ''pkg'', ''ok.go'']),
      (''/root/pkg/x-pack/sub/file.go'', [''root'', ''pkg'', ''x-pack'', ''sub'', ''file.go'']),
      (''/root/other/f.go'', [''root'', ''other'', ''f.go'']),
      (''/root/pkg/notes.txt'', [''root'', ''pkg'', ''notes.txt'']),
      (''/root/bad/bad.go'', [''root'', ''bad'', ''bad.go''])]"

definition baseName :: "string \<Rightarrow> string" where
  "baseName name = rev (takeWhile (\<lambda>c. c \<noteq> CHR ''/'') (rev name))"

definition demoStat :: "string \<Rightarrow> error + FileInfo" where
  "demoStat name =
     (case map_of demoRegular name of
        Some contents \<Rightarrow> Inr \<lparr>Name = baseName name, Mode_IsRegular = True, IsDir = False\<rparr>
      | None \<Rightarrow>
          if name \<in> set demoDirs
          then Inr \<lparr>Name = baseName name, Mode_IsRegular = False, IsDir = True\<rparr>
          else Inl (Error (''stat '' @ name @ '': no such file or directory'')))"

definition demoRead :: "string \<Rightarrow> error + bytes" where
  "demoRead name =
     (case map_of demoRegular name of
        Some contents \<Rightarrow> Inr contents
      | None \<Rightarrow> Inl (Error (''open '' @ name @ '': no such file or directory'')))"

definition demoEnv :: env where
  "demoEnv =
     \<lparr>os_Getenv = (\<lambda>key. if key = ''GOPATH'' then ''/root'' else []),
      filepath_Abs = (\<lambda>name. case map_of demoAbsTable name of
                                Some p \<Rightarrow> Inr p
                              | None \<Rightarrow> Inl (Error ''getwd: no such file or directory'')),
      filepath_Join = (\<lambda>dir name. dir @ ''/'' @ name),
      filepath_Base = baseName,
      os_Stat = demoStat,
      ioutil_ReadFile = demoRead,
      os_Open = (\<lambda>name. case demoRead name of Inl err \<Rightarrow> Some err | Inr contents \<Rightarrow> None),
      ioutil_ReadAll = (\<lambda>r. case r of os_Stdin \<Rightarrow> Inr ''package main\<newline>''
                                    | File name \<Rightarrow> demoRead name),
      imports_Process = (\<lambda>filename src allErrs.
                           if src = ''package\<newline>''
                           then Inl (Error (filename @ '':1:8: expected IDENT, found newline''))
                           else Inr src),
      fmt_Sprint = (\<lambda>w. case w of os_Stdout \<Rightarrow> ''&{0xc000012018}'' | Writer name \<Rightarrow> name),
      io_Write = (\<lambda>w data. None),
      ioutil_WriteFile = (\<lambda>name data. None),
      ioutil_TempFile = Inr ''/tmp/beatfmt1'',
      file_Write = (\<lambda>name data. None),
      exec_CombinedOutput = (\<lambda>fOld fNew. (''--- '' @ fOld @ ''\<newline>+++ '' @ fNew @ ''\<newline>'',
                                            Some (Error ''exit status 1''))),
      filepath_Walk_entries =
        (\<lambda>root. if root = ''/root/bad''
                 then [(''/root/bad'', demoStat ''/root/bad''),
                       (''/root/bad/README.md'', demoStat ''/root/bad/README.md''),
                       (''/root/bad/bad.go'', demoStat ''/root/bad/bad.go'')]
                 else if root = ''/root/other''
                 then [(''/root/other'', demoStat ''/root/other''),
                       (''/root/other/doc.txt'', demoStat ''/root/other/doc.txt''),
                       (''/root/other/f.go'', demoStat ''/root/other/f.go'')]
                 else [])\<rparr>"

text \<open>
  The tree does not change while the program runs, except that the second temporary file
  gets a name of its own.
\<close>

definition demoOs :: os where
  "demoOs tr =
     (if TempFile \<in> set tr then demoEnv\<lparr>ioutil_TempFile := Inr ''/tmp/beatfmt2''\<rparr> else demoEnv)"

definition demoSettings :: settings where
  "demoSettings =
     \<lparr>license = [], licSearchCWD = False, srcDir = [], overwrite = False, allErrors = False,
      diff = False, list = False\<rparr>"

section \<open>The header and its two forms\<close>

lemma headerBytes_foldl:
  "foldl (\<lambda>hb line. hb @ line @ ''\<newline>'') acc header
     = acc @ concat (map (\<lambda>line. line @ ''\<newline>'') header)"
  by (induction header arbitrary: acc) simp_all

lemma headerBytes_concat:
  "headerBytes header = concat (map (\<lambda>line. line @ ''\<newline>'') header)"
  unfolding headerBytes_def by (simp add: headerBytes_foldl)

lemma headerBytes_Nil: "headerBytes [] = []"
  by (simp add: headerBytes_concat)

lemma headerBytes_Cons: "headerBytes (l # ls) = l @ CHR ''\<newline>'' # headerBytes ls"
  by (simp add: headerBytes_concat)

lemma strings_Split_not_Nil: "strings_Split s \<noteq> []"
  by (induction s) simp_all

lemma headerBytes_Split: "headerBytes (strings_Split s) = s @ ''\<newline>''"
proof (induction s)
  case Nil
  show ?case by (simp add: headerBytes_Cons headerBytes_Nil)
next
  case (Cons c cs)
  obtain l ls where sp: "strings_Split cs = l # ls"
    using strings_Split_not_Nil [of cs] by (cases "strings_Split cs") auto
  with Cons show ?case by (simp add: headerBytes_Cons)
qed

lemma strings_Split_snoc_newline:
  "strings_Split (s @ ''\<newline>'') = strings_Split s @ [[]]"
proof (induction s)
  case Nil
  show ?case by simp
next
  case (Cons c cs)
  obtain l ls where sp: "strings_Split cs = l # ls"
    using strings_Split_not_Nil [of cs] by (cases "strings_Split cs") auto
  with Cons show ?case by simp
qed

lemma strings_Split_no_newline: "l \<in> set (strings_Split s) \<Longrightarrow> CHR ''\<newline>'' \<notin> set l"
proof (induction s arbitrary: l)
  case Nil
  then show ?case by simp
next
  case (Cons c cs)
  obtain k ks where sp: "strings_Split cs = k # ks"
    using strings_Split_not_Nil [of cs] by (cases "strings_Split cs") auto
  show ?case
  proof (cases "c = CHR ''\<newline>''")
    case True
    with Cons show ?thesis by auto
  next
    case False
    with Cons.prems sp have "l = c # k \<or> l \<in> set ks" by simp
    then show ?thesis
    proof
      assume "l = c # k"
      moreover have "CHR ''\<newline>'' \<notin> set k" using Cons.IH [of k] sp by simp
      ultimately show ?thesis using False by auto
    next
      assume "l \<in> set ks"
      then show ?thesis using Cons.IH [of l] sp by simp
    qed
  qed
qed

lemma scanLines_line:
  assumes "CHR ''\<newline>'' \<notin> set l"
  shows "scanLines (l @ CHR ''\<newline>'' # rest) = l # scanLines rest"
proof -
  have ne: "\<And>c. c \<in> set l \<Longrightarrow> c \<noteq> CHR ''\<newline>''"
    using assms by blast
  have tw: "takeWhile (\<lambda>c. c \<noteq> CHR ''\<newline>'') (l @ CHR ''\<newline>'' # rest) = l"
    by (simp add: takeWhile_append2 [OF ne])
  have dw: "dropWhile (\<lambda>c. c \<noteq> CHR ''\<newline>'') (l @ CHR ''\<newline>'' # rest) = CHR ''\<newline>'' # rest"
    by (simp add: dropWhile_append2 [OF ne])
  show ?thesis
    by (subst scanLines.simps) (simp add: tw dw)
qed

lemma scanLines_headerBytes:
  assumes "\<forall>l \<in> set h. CHR ''\<newline>'' \<notin> set l"
  shows "scanLines (headerBytes h @ d) = h @ scanLines d"
  using assms
proof (induction h)
  case Nil
  show ?case by (simp add: headerBytes_Nil)
next
  case (Cons l ls)
  then show ?case by (simp add: headerBytes_Cons scanLines_line)
qed

lemma ContainsHeader_after_rewrite:
  assumes "\<forall>l \<in> set h. CHR ''\<newline>'' \<notin> set l"
  shows "ContainsHeader (RewriteWithHeader d (headerBytes h)) h"
  using assms by (simp add: ContainsHeader_def RewriteWithHeader_def scanLines_headerBytes)


text \<open>
  C8, as the code has it. The claim is that the blob of a header read from a file is the
  contents of that file, and that the blob split at its newlines is the list of lines
  again. The list is \<^verbatim>\<open>strings.Split(contents, "\n")\<close> and the blob puts a newline
  after every line of it, the last one too: so the blob is the contents and one newline
  more, and the blob split at its newlines is the list of lines and one empty line more.
\<close>

theorem header_forms_amended:
  "headerBytes (strings_Split contents) = contents @ ''\<newline>''
   \<and> strings_Split (headerBytes (strings_Split contents)) = strings_Split contents @ [[]]"
  by (simp add: headerBytes_Split strings_Split_snoc_newline)

text \<open>
  The claim C8 as it is stated fails on the header file that holds the one line
  \<^verbatim>\<open>// H\<close> and its newline: neither form comes back.
\<close>

theorem header_forms_counterexample:
  "strings_Split (headerBytes (strings_Split ''// H\<newline>'')) \<noteq> strings_Split ''// H\<newline>''
   \<and> headerBytes (strings_Split ''// H\<newline>'') \<noteq> ''// H\<newline>''"
  by (simp add: headerBytes_def)

theorem header_forms_amended_witness:
  "headerBytes (strings_Split ''// H\<newline>'') = ''// H\<newline>\<newline>''
   \<and> strings_Split (headerBytes (strings_Split ''// H\<newline>'')) = [''// H'', [], []]"
  using header_forms_amended [of "''// H\<newline>''"] by simp

section \<open>Injection\<close>

text \<open>
  C1: header injection is idempotent. For every header whose elements are lines, that
  is, hold no newline, and every document, the stage returns a document on which it
  changes nothing. This holds of every header that \<^verbatim>\<open>processFile\<close> resolves, which
  is the contents of a file split at its newlines. And a document whose leading lines
  are the elements of the header, whatever they are, is returned as it is.
\<close>

theorem licenseHeader_idempotent:
  "((\<forall>l \<in> set h. CHR ''\<newline>'' \<notin> set l)
      \<longrightarrow> (\<exists>d'. licenseHeader h filename d = Inr d' \<and> licenseHeader h filename d' = Inr d'))
   \<and> (\<exists>d'. licenseHeader (strings_Split contents) filename d = Inr d'
             \<and> licenseHeader (strings_Split contents) filename d' = Inr d')
   \<and> (length h \<le> length (scanLines d) \<and> take (length h) (scanLines d) = h
        \<longrightarrow> licenseHeader h filename d = Inr d)"
proof (intro conjI impI)
  assume lines: "\<forall>l \<in> set h. CHR ''\<newline>'' \<notin> set l"
  show "\<exists>d'. licenseHeader h filename d = Inr d' \<and> licenseHeader h filename d' = Inr d'"
    using ContainsHeader_after_rewrite [OF lines]
    by (simp add: licenseHeader_def)
next
  have lines: "\<forall>l \<in> set (strings_Split contents). CHR ''\<newline>'' \<notin> set l"
    using strings_Split_no_newline by blast
  show "\<exists>d'. licenseHeader (strings_Split contents) filename d = Inr d'
             \<and> licenseHeader (strings_Split contents) filename d' = Inr d'"
    using ContainsHeader_after_rewrite [OF lines]
    by (simp add: licenseHeader_def)
next
  assume "length h \<le> length (scanLines d) \<and> take (length h) (scanLines d) = h"
  then show "licenseHeader h filename d = Inr d"
    by (simp add: licenseHeader_def ContainsHeader_def)
qed

theorem licenseHeader_idempotent_witness:
  "CHR ''\<newline>'' \<notin> set ''// H1'' \<and> CHR ''\<newline>'' \<notin> set ''// H2''
   \<and> licenseHeader [''// H1'', ''// H2''] ''a.go'' ''package main\<newline>''
       = Inr ''// H1\<newline>// H2\<newline>package main\<newline>''
   \<and> licenseHeader [''// H1'', ''// H2''] ''a.go'' ''// H1\<newline>// H2\<newline>package main\<newline>''
       = Inr ''// H1\<newline>// H2\<newline>package main\<newline>''"
proof -
  have lines: "\<forall>l \<in> set [''// H1'', ''// H2'']. CHR ''\<newline>'' \<notin> set l"
    by simp
  have first: "licenseHeader [''// H1'', ''// H2''] ''a.go'' ''package main\<newline>''
       = Inr ''// H1\<newline>// H2\<newline>package main\<newline>''"
    by (simp add: licenseHeader_def ContainsHeader_def RewriteWithHeader_def headerBytes_def
          scanLines.simps)
  from licenseHeader_idempotent [of "[''// H1'', ''// H2'']" "''a.go''" "''package main\<newline>''",
      THEN conjunct1] lines
  have "\<exists>d'. licenseHeader [''// H1'', ''// H2''] ''a.go'' ''package main\<newline>'' = Inr d'
             \<and> licenseHeader [''// H1'', ''// H2''] ''a.go'' d' = Inr d'"
    by (rule mp)
  then have "licenseHeader [''// H1'', ''// H2''] ''a.go'' ''// H1\<newline>// H2\<newline>package main\<newline>''
       = Inr ''// H1\<newline>// H2\<newline>package main\<newline>''"
    using first by simp
  with first show ?thesis by simp
qed

section \<open>The header search\<close>

lemma ancestors_Nil: "ancestors [] = [[]]"
  by (simp add: ancestors_def)

lemma ancestors_step:
  assumes "dir \<noteq> []"
  shows "ancestors dir = dir # ancestors (abs_Dir dir)"
proof -
  obtain k where k: "length dir = Suc k"
    using assms by (cases dir) auto
  have len: "length (butlast dir) = k" using k by simp
  have "map (\<lambda>n. take n dir) (rev [0..<Suc k]) = map (\<lambda>n. take n (butlast dir)) (rev [0..<Suc k])"
  proof (rule map_cong [OF refl])
    fix n assume "n \<in> set (rev [0..<Suc k])"
    then have "n \<le> k" by auto
    then show "take n dir = take n (butlast dir)"
      using k by (simp add: take_butlast)
  qed
  then show ?thesis
    using k len by (simp add: ancestors_def abs_Dir_def)
qed

lemma searchDirs_step:
  "searchDirs root dir =
     (if abs_string dir \<noteq> root \<and> abs_string dir \<noteq> ''/'' then dir # searchDirs root (abs_Dir dir)
      else [])"
proof (cases "dir = []")
  case True
  then show ?thesis by (simp add: searchDirs_def ancestors_Nil abs_string_def)
next
  case False
  then show ?thesis by (simp add: searchDirs_def ancestors_step)
qed


lemma headerPath_0:
  "headerPath lt (d # ds) 0 = abs_string (abs_Join d (headerName lt [d]))"
  by (simp add: headerPath_def)

lemma headerPath_Suc:
  "headerPath lt (d # ds) (Suc i) = headerPath (headerName lt [d]) ds i"
  by (simp add: headerPath_def headerName_def)

lemma searchLoop_unfold:
  "searchLoop os root lt dir tr =
     (if abs_string dir \<noteq> root \<and> abs_string dir \<noteq> ''/'' then
        (if statRegular (os tr) (abs_string (abs_Join dir (headerName lt [dir])))
         then (abs_string (abs_Join dir (headerName lt [dir])),
               tr @ [Stat (abs_string (abs_Join dir (headerName lt [dir])))])
         else searchLoop os root (headerName lt [dir]) (abs_Dir dir)
                (tr @ [Stat (abs_string (abs_Join dir (headerName lt [dir])))]))
      else ([], tr))"
proof -
  have hn: "headerName lt [dir] = (if abs_Base dir = ''x-pack'' then xpackLicenseFileName else lt)"
    by (simp add: headerName_def)
  show ?thesis
    unfolding hn statRegular_def
    apply (rule trans [OF searchLoop.simps])
    apply (cases "os_Stat (os tr) (abs_string (abs_Join dir (if abs_Base dir = ''x-pack'' then xpackLicenseFileName else lt)))")
     apply (simp_all only: Let_def sum.case if_False)
    done
qed

lemma abs_string_Join_not_Nil: "abs_string (abs_Join d name) \<noteq> []"
  by (simp add: abs_string_def abs_Join_def)

lemma map_upt_shift:
  "map f [0..<Suc n] = f 0 # map (\<lambda>i. f (Suc i)) [0..<n]"
  by (simp add: upt_conv_Cons map_Suc_upt [symmetric] del: upt_Suc)

lemma searchPre_0: "searchPre lt ds tr 0 = tr"
  by (simp add: searchPre_def)

lemma searchPre_Suc:
  "searchPre lt (d # ds) tr (Suc i)
     = searchPre (headerName lt [d]) ds (tr @ [Stat (headerPath lt (d # ds) 0)]) i"
  unfolding searchPre_def
  by (simp add: map_upt_shift headerPath_Suc del: upt_Suc)

lemma searchLoop_trace:
  "\<exists>n \<le> length (searchDirs root dir).
      snd (searchLoop os root lt dir tr) = searchPre lt (searchDirs root dir) tr n
    \<and> (fst (searchLoop os root lt dir tr) = [] \<longrightarrow> n = length (searchDirs root dir))
    \<and> (fst (searchLoop os root lt dir tr) \<noteq> [] \<longrightarrow>
          0 < n \<and> fst (searchLoop os root lt dir tr) = headerPath lt (searchDirs root dir) (n - 1))
    \<and> (\<forall>i < n. statRegular (os (searchPre lt (searchDirs root dir) tr i))
                   (headerPath lt (searchDirs root dir) i)
                 \<longleftrightarrow> fst (searchLoop os root lt dir tr) \<noteq> [] \<and> i = n - 1)"
proof (induction dir arbitrary: lt tr rule: rev_induct)
  case Nil
  have "searchLoop os root lt [] tr = ([], tr)"
    by (rule trans [OF searchLoop_unfold]) (simp add: abs_string_def)
  moreover have "searchDirs root [] = []"
    by (simp add: searchDirs_step [of root "[]"] abs_string_def)
  ultimately show ?case by (simp add: searchPre_0)
next
  case (snoc x xs)
  let ?dir = "xs @ [x]"
  show ?case
  proof (cases "abs_string ?dir \<noteq> root \<and> abs_string ?dir \<noteq> ''/''")
    case False
    then have "searchLoop os root lt ?dir tr = ([], tr)"
      by (auto simp: searchLoop_unfold [of os root lt ?dir tr])
    moreover from False have "searchDirs root ?dir = []"
      by (auto simp: searchDirs_step [of root ?dir])
    ultimately show ?thesis by (simp add: searchPre_0)
  next
    case True
    define ds where "ds = searchDirs root xs"
    define lt' where "lt' = headerName lt [?dir]"
    define p where "p = abs_string (abs_Join ?dir lt')"
    have dirs: "searchDirs root ?dir = ?dir # ds"
      using True by (simp add: searchDirs_step [of root ?dir] abs_Dir_def ds_def)
    have p0: "headerPath lt (?dir # ds) 0 = p"
      by (simp add: headerPath_0 p_def lt'_def)
    have pne: "p \<noteq> []" by (simp add: p_def abs_string_Join_not_Nil)
    show ?thesis
    proof (cases "statRegular (os tr) p")
      case reg: True
      have r: "searchLoop os root lt ?dir tr = (p, tr @ [Stat p])"
        using True reg by (simp add: searchLoop_unfold [of os root lt ?dir tr] p_def lt'_def)
      have "snd (searchLoop os root lt ?dir tr) = searchPre lt (?dir # ds) tr 1"
        by (simp add: r searchPre_def p0)
      moreover have "\<forall>i < (1::nat). statRegular (os (searchPre lt (?dir # ds) tr i))
                   (headerPath lt (?dir # ds) i)
                 \<longleftrightarrow> fst (searchLoop os root lt ?dir tr) \<noteq> [] \<and> i = 1 - 1"
        using reg pne by (simp add: r searchPre_0 p0)
      ultimately show ?thesis
        unfolding dirs using pne p0 r
        by (intro exI [of _ 1]) simp
    next
      case nreg: False
      define tr' where "tr' = tr @ [Stat p]"
      have r: "searchLoop os root lt ?dir tr = searchLoop os root lt' xs tr'"
        using True nreg
        by (simp add: searchLoop_unfold [of os root lt ?dir tr] p_def lt'_def tr'_def abs_Dir_def)
      from snoc [of lt' tr'] obtain n where n: "n \<le> length ds"
        and tr_n: "snd (searchLoop os root lt' xs tr') = searchPre lt' ds tr' n"
        and nf: "fst (searchLoop os root lt' xs tr') = [] \<longrightarrow> n = length ds"
        and fd: "fst (searchLoop os root lt' xs tr') \<noteq> [] \<longrightarrow>
                   0 < n \<and> fst (searchLoop os root lt' xs tr') = headerPath lt' ds (n - 1)"
        and rg: "\<forall>i < n. statRegular (os (searchPre lt' ds tr' i)) (headerPath lt' ds i)
                   \<longleftrightarrow> fst (searchLoop os root lt' xs tr') \<noteq> [] \<and> i = n - 1"
        unfolding ds_def by blast
      have pre: "\<And>i. searchPre lt (?dir # ds) tr (Suc i) = searchPre lt' ds tr' i"
        by (simp add: searchPre_Suc p0 lt'_def tr'_def)
      have hp: "\<And>i. headerPath lt (?dir # ds) (Suc i) = headerPath lt' ds i"
        by (simp add: headerPath_Suc lt'_def)
      have c1: "snd (searchLoop os root lt ?dir tr) = searchPre lt (?dir # ds) tr (Suc n)"
        by (simp add: r tr_n pre)
      have c2: "fst (searchLoop os root lt ?dir tr) = [] \<longrightarrow> Suc n = length (?dir # ds)"
        using nf by (simp add: r)
      have c3: "fst (searchLoop os root lt ?dir tr) \<noteq> [] \<longrightarrow>
          0 < Suc n \<and> fst (searchLoop os root lt ?dir tr) = headerPath lt (?dir # ds) (Suc n - 1)"
      proof
        assume "fst (searchLoop os root lt ?dir tr) \<noteq> []"
        then have f: "fst (searchLoop os root lt' xs tr') \<noteq> []" by (simp add: r)
        with fd obtain m where m: "n = Suc m" by (cases n) auto
        from f fd show "0 < Suc n \<and> fst (searchLoop os root lt ?dir tr) = headerPath lt (?dir # ds) (Suc n - 1)"
          by (simp add: r m hp)
      qed
      have c4: "\<forall>i < Suc n. statRegular (os (searchPre lt (?dir # ds) tr i))
                   (headerPath lt (?dir # ds) i)
                 \<longleftrightarrow> fst (searchLoop os root lt ?dir tr) \<noteq> [] \<and> i = Suc n - 1"
      proof (intro allI impI)
        fix i assume i: "i < Suc n"
        show "statRegular (os (searchPre lt (?dir # ds) tr i)) (headerPath lt (?dir # ds) i)
                 \<longleftrightarrow> fst (searchLoop os root lt ?dir tr) \<noteq> [] \<and> i = Suc n - 1"
        proof (cases i)
          case 0
          have "fst (searchLoop os root lt' xs tr') \<noteq> [] \<longrightarrow> n \<noteq> 0"
            using fd by auto
          then show ?thesis using nreg by (auto simp: 0 searchPre_0 p0 r)
        next
          case (Suc j)
          with i have "j < n" by simp
          with rg have "statRegular (os (searchPre lt' ds tr' j)) (headerPath lt' ds j)
                   \<longleftrightarrow> fst (searchLoop os root lt' xs tr') \<noteq> [] \<and> j = n - 1"
            by blast
          then show ?thesis using \<open>j < n\<close> by (auto simp: Suc pre hp r)
        qed
      qed
      show ?thesis
        unfolding dirs using n c1 c2 c3 c4
        by (intro exI [of _ "Suc n"]) simp
    qed
  qed
qed


lemma searchDirs_not_root:
  "d \<in> set (searchDirs root dir) \<Longrightarrow> abs_string d \<noteq> root \<and> abs_string d \<noteq> ''/''"
  unfolding searchDirs_def by (drule set_takeWhileD) simp

lemma processFile_search_loop:
  assumes "filepath_Abs (os tr) (if licSearchCWD settings then ''.'' else target) = Inr start"
  shows "processFile_search os settings target tr
           = (Inr (fst (searchLoop os (searchRoot (os tr)) licenseFileName (abs_Dir start) tr)),
              snd (searchLoop os (searchRoot (os tr)) licenseFileName (abs_Dir start) tr))"
proof -
  have root: "(let root = (case filepath_Abs (os tr) (os_Getenv (os tr) ''GOPATH'') of
                    Inl err \<Rightarrow> [] | Inr p \<Rightarrow> abs_string p) in if root = [] then ''.'' else root)
        = searchRoot (os tr)"
    by (simp add: searchRoot_def abs_string_def split: sum.splits)
  show ?thesis
    using assms root
    by (simp add: processFile_search_def Let_def split_beta split: if_splits)
qed

subsection \<open>Evaluation in the small tree\<close>

lemmas demo_defs = demoOs_def demoEnv_def demoSettings_def demoStat_def demoRead_def
  demoRegular_def demoDirs_def demoAbsTable_def baseName_def

lemmas path_defs = abs_string_def abs_Dir_def abs_Base_def abs_Join_def headerName_def
  licenseFileName_def xpackLicenseFileName_def statRegular_def searchRoot_def

text \<open>
  C2, as the code has it, for the search that starts from the target. The directories
  examined are those from the directory that holds the target upwards, as long as they
  are neither the search root nor the root directory: the search root itself is never
  examined. They are examined in that order, each for the header name then in force,
  up to the first that holds a regular file of that name; when none does, every one of
  them has been examined and there is no header.
\<close>

theorem processFile_search_examines:
  assumes cwd: "\<not> licSearchCWD settings"
    and abs: "filepath_Abs (os tr) target = Inr start"
    and ds: "ds = searchDirs (searchRoot (os tr)) (abs_Dir start)"
  shows "(\<exists>n lic. n \<le> length ds
            \<and> processFile_search os settings target tr
                = (Inr lic, tr @ map (\<lambda>i. Stat (headerPath licenseFileName ds i)) [0..<n])
            \<and> (ds \<noteq> [] \<longrightarrow> 0 < n)
            \<and> (lic = [] \<longrightarrow> n = length ds)
            \<and> (lic \<noteq> [] \<longrightarrow> lic = headerPath licenseFileName ds (n - 1))
            \<and> (\<forall>i < n. statRegular (os (searchPre licenseFileName ds tr i))
                            (headerPath licenseFileName ds i)
                          \<longleftrightarrow> lic \<noteq> [] \<and> i = n - 1))
         \<and> ds = takeWhile (\<lambda>d. abs_string d \<noteq> searchRoot (os tr) \<and> abs_string d \<noteq> ''/'')
                   (ancestors (abs_Dir start))
         \<and> (\<forall>d \<in> set ds. abs_string d \<noteq> searchRoot (os tr) \<and> abs_string d \<noteq> ''/'')"
proof (intro conjI)
  let ?r = "searchLoop os (searchRoot (os tr)) licenseFileName (abs_Dir start) tr"
  have abs': "filepath_Abs (os tr) (if licSearchCWD settings then ''.'' else target) = Inr start"
    using cwd abs by simp
  have pf: "processFile_search os settings target tr = (Inr (fst ?r), snd ?r)"
    by (rule processFile_search_loop [where os = os and tr = tr, OF abs'])
  from searchLoop_trace [of "searchRoot (os tr)" "abs_Dir start" os licenseFileName tr]
  obtain n where n: "n \<le> length ds"
    and t: "snd ?r = searchPre licenseFileName ds tr n"
    and nf: "fst ?r = [] \<longrightarrow> n = length ds"
    and fd: "fst ?r \<noteq> [] \<longrightarrow> 0 < n \<and> fst ?r = headerPath licenseFileName ds (n - 1)"
    and rg: "\<forall>i < n. statRegular (os (searchPre licenseFileName ds tr i))
                        (headerPath licenseFileName ds i)
                      \<longleftrightarrow> fst ?r \<noteq> [] \<and> i = n - 1"
    unfolding ds by blast
  have pos: "ds \<noteq> [] \<longrightarrow> 0 < n"
    using nf fd by (cases "fst ?r = []") auto
  show "\<exists>n lic. n \<le> length ds
            \<and> processFile_search os settings target tr
                = (Inr lic, tr @ map (\<lambda>i. Stat (headerPath licenseFileName ds i)) [0..<n])
            \<and> (ds \<noteq> [] \<longrightarrow> 0 < n)
            \<and> (lic = [] \<longrightarrow> n = length ds)
            \<and> (lic \<noteq> [] \<longrightarrow> lic = headerPath licenseFileName ds (n - 1))
            \<and> (\<forall>i < n. statRegular (os (searchPre licenseFileName ds tr i))
                            (headerPath licenseFileName ds i)
                          \<longleftrightarrow> lic \<noteq> [] \<and> i = n - 1)"
    using n pf t pos nf fd rg
    by (intro exI [of _ n] exI [of _ "fst ?r"]) (simp add: searchPre_def)
next
  show "ds = takeWhile (\<lambda>d. abs_string d \<noteq> searchRoot (os tr) \<and> abs_string d \<noteq> ''/'')
               (ancestors (abs_Dir start))"
    by (simp add: ds searchDirs_def)
next
  show "\<forall>d \<in> set ds. abs_string d \<noteq> searchRoot (os tr) \<and> abs_string d \<noteq> ''/''"
    unfolding ds using searchDirs_not_root by blast
qed

text \<open>
  The claim C2 as it is stated fails in the small tree: the search root \<^verbatim>\<open>/root\<close> holds
  a header file, the search for \<^verbatim>\<open>/root/other/f.go\<close> examines \<^verbatim>\<open>/root/other\<close> only,
  and there is no header.
\<close>

theorem search_root_counterexample:
  "license demoSettings = [] \<and> \<not> licSearchCWD demoSettings
   \<and> searchRoot (demoOs []) = ''/root''
   \<and> statRegular (demoOs []) ''/root/.go_license_header''
   \<and> processFile_search demoOs demoSettings ''/root/other/f.go'' []
       = (Inr [], [Stat ''/root/other/.go_license_header''])"
proof -
  have abs: "filepath_Abs (demoOs [])
               (if licSearchCWD demoSettings then ''.'' else ''/root/other/f.go'')
             = Inr [''root'', ''other'', ''f.go'']"
    by (simp add: demo_defs)
  have root: "searchRoot (demoOs []) = ''/root''"
    by (simp add: demo_defs path_defs)
  have loop: "searchLoop demoOs ''/root'' licenseFileName [''root'', ''other''] []
                = ([], [Stat ''/root/other/.go_license_header''])"
    by (simp add: searchLoop_unfold demo_defs path_defs)
  have "statRegular (demoOs []) ''/root/.go_license_header''"
    by (simp add: demo_defs path_defs)
  then show ?thesis
    using root loop
    by (simp add: processFile_search_loop [where os = demoOs and tr = "[]", OF abs] abs_Dir_def)
       (simp add: demoSettings_def)
qed

theorem processFile_search_examines_witness:
  "\<not> licSearchCWD demoSettings
   \<and> filepath_Abs (demoOs []) ''/root/pkg/a.go'' = Inr [''root'', ''pkg'', ''a.go'']
   \<and> searchDirs (searchRoot (demoOs [])) (abs_Dir [''root'', ''pkg'', ''a.go'']) = [[''root'', ''pkg'']]
   \<and> processFile_search demoOs demoSettings ''/root/pkg/a.go'' []
       = (Inr ''/root/pkg/.go_license_header'', [Stat ''/root/pkg/.go_license_header''])
   \<and> abs_string [''root'', ''pkg''] \<noteq> searchRoot (demoOs [])"
proof -
  have h1: "\<not> licSearchCWD demoSettings"
    by (simp add: demoSettings_def)
  have h2: "filepath_Abs (demoOs []) ''/root/pkg/a.go'' = Inr [''root'', ''pkg'', ''a.go'']"
    by (simp add: demo_defs)
  have root: "searchRoot (demoOs []) = ''/root''"
    by (simp add: demo_defs path_defs)
  have h3: "[[''root'', ''pkg'']]
              = searchDirs (searchRoot (demoOs [])) (abs_Dir [''root'', ''pkg'', ''a.go''])"
    by (simp add: root searchDirs_step abs_string_def abs_Dir_def)
  have hp: "headerPath licenseFileName [[''root'', ''pkg'']] 0 = ''/root/pkg/.go_license_header''"
    by (simp add: headerPath_def path_defs)
  let ?ds = "[[''root'', ''pkg'']]"
  note inst = processFile_search_examines [where os = demoOs and tr = "[]", OF h1 h2 h3]
  from inst have nr: "\<forall>d \<in> set ?ds. abs_string d \<noteq> searchRoot (demoOs []) \<and> abs_string d \<noteq> ''/''"
    by (elim conjE)
  from inst have "\<exists>n lic. n \<le> length ?ds
            \<and> processFile_search demoOs demoSettings ''/root/pkg/a.go'' []
                = (Inr lic, [] @ map (\<lambda>i. Stat (headerPath licenseFileName ?ds i)) [0..<n])
            \<and> (?ds \<noteq> [] \<longrightarrow> 0 < n)
            \<and> (lic = [] \<longrightarrow> n = length ?ds)
            \<and> (lic \<noteq> [] \<longrightarrow> lic = headerPath licenseFileName ?ds (n - 1))
            \<and> (\<forall>i < n. statRegular (demoOs (searchPre licenseFileName ?ds [] i))
                            (headerPath licenseFileName ?ds i)
                          \<longleftrightarrow> lic \<noteq> [] \<and> i = n - 1)"
    by (elim conjE)
  then obtain n lic where n0: "n \<le> length ?ds"
    and pf: "processFile_search demoOs demoSettings ''/root/pkg/a.go'' []
              = (Inr lic, [] @ map (\<lambda>i. Stat (headerPath licenseFileName ?ds i)) [0..<n])"
    and pos0: "?ds \<noteq> [] \<longrightarrow> 0 < n"
    and fd: "lic \<noteq> [] \<longrightarrow> lic = headerPath licenseFileName ?ds (n - 1)"
    and rg: "\<forall>i < n. statRegular (demoOs (searchPre licenseFileName ?ds [] i))
                            (headerPath licenseFileName ?ds i)
                          \<longleftrightarrow> lic \<noteq> [] \<and> i = n - 1"
    by (elim exE conjE)
  from n0 have n: "n \<le> 1" by simp
  from pos0 have pos: "0 < n" by simp
  from n pos have n1: "n = 1" by simp
  have "statRegular (demoOs []) ''/root/pkg/.go_license_header''"
    by (simp add: demo_defs path_defs)
  with rg have "lic \<noteq> []" by (simp add: n1 searchPre_def hp)
  with fd have "lic = ''/root/pkg/.go_license_header''" by (simp add: n1 hp)
  with pf have "processFile_search demoOs demoSettings ''/root/pkg/a.go'' []
       = (Inr ''/root/pkg/.go_license_header'', [Stat ''/root/pkg/.go_license_header''])"
    by (simp add: n1 hp)
  moreover from nr have "abs_string [''root'', ''pkg''] \<noteq> searchRoot (demoOs [])"
    by simp
  ultimately show ?thesis using h1 h2 h3 by simp
qed

text \<open>
  With the search from the working directory, the first directory examined is the parent
  of the working directory: in the small tree the working directory is
  \<^verbatim>\<open>/root/pkg/x-pack/sub\<close>, and nothing in it is looked at.
\<close>

lemma search_from_cwd_starts_at_parent:
  "filepath_Abs (demoOs []) ''.'' = Inr [''root'', ''pkg'', ''x-pack'', ''sub'']
   \<and> processFile_search demoOs (demoSettings\<lparr>licSearchCWD := True\<rparr>) ''/root/other/f.go'' []
       = (Inr ''/root/pkg/x-pack/.go_xpack_license_header'',
          [Stat ''/root/pkg/x-pack/.go_xpack_license_header''])"
proof -
  have abs: "filepath_Abs (demoOs [])
               (if licSearchCWD (demoSettings\<lparr>licSearchCWD := True\<rparr>) then ''.''
                else ''/root/other/f.go'')
             = Inr [''root'', ''pkg'', ''x-pack'', ''sub'']"
    by (simp add: demo_defs)
  have root: "searchRoot (demoOs []) = ''/root''"
    by (simp add: demo_defs path_defs)
  have loop: "searchLoop demoOs ''/root'' licenseFileName [''root'', ''pkg'', ''x-pack''] []
                = (''/root/pkg/x-pack/.go_xpack_license_header'',
                   [Stat ''/root/pkg/x-pack/.go_xpack_license_header''])"
    by (simp add: searchLoop_unfold demo_defs path_defs)
  show ?thesis
    using root loop
    by (simp add: processFile_search_loop [where os = demoOs and tr = "[]", OF abs] abs_Dir_def)
       (simp add: demo_defs)
qed



section \<open>The diff\<close>

lemma writeTmpFile_fails_iff:
  "isl (fst (writeTmpFile os content tr))
     \<longleftrightarrow> isl (ioutil_TempFile (os tr))
         \<or> (\<exists>f. ioutil_TempFile (os tr) = Inr f
                \<and> file_Write (os (tr @ [TempFile])) f content \<noteq> None)"
proof (cases "ioutil_TempFile (os tr)")
  case (Inl err)
  then show ?thesis by (simp add: writeTmpFile_def)
next
  case (Inr f)
  then show ?thesis
    by (cases "file_Write (os (tr @ [TempFile])) f content")
       (simp_all add: writeTmpFile_def Let_def)
qed

lemma diffBytes_first_fails:
  assumes "writeTmpFile os old tr = (Inl err, tr1)"
  shows "diffBytes os old new tr = (([], Some err), tr1)"
  using assms by (simp add: diffBytes_def)

lemma diffBytes_second_fails:
  assumes "writeTmpFile os old tr = (Inr fOld, tr1)"
    and "writeTmpFile os new tr1 = (Inl err, tr2)"
  shows "diffBytes os old new tr = (([], Some err), tr2 @ [Remove fOld])"
  using assms by (simp add: diffBytes_def)

lemma diffBytes_runs:
  assumes "writeTmpFile os old tr = (Inr fOld, tr1)"
    and "writeTmpFile os new tr1 = (Inr fNew, tr2)"
    and "exec_CombinedOutput (os tr2) fOld fNew = (data, status)"
  shows "diffBytes os old new tr
           = ((data, if data \<noteq> [] then None else status),
              tr2 @ [Exec fOld fNew, Remove fNew, Remove fOld])"
  using assms by (simp add: diffBytes_def)

text \<open>
  C7: the diff succeeds with the captured bytes whenever the utility produced output,
  whatever its exit status; and it returns an error exactly when the utility produced no
  output and reported a failure, or when one of the two temporary files could not be
  made, that is, when \<^verbatim>\<open>writeTmpFile\<close> failed on the old or on the new buffer:
  the file could not be created, or the buffer could not be written into it.
\<close>

theorem diffBytes_error_iff:
  "(\<forall>fOld tr1 fNew tr2 data status.
       writeTmpFile os old tr = (Inr fOld, tr1)
       \<and> writeTmpFile os new tr1 = (Inr fNew, tr2)
       \<and> exec_CombinedOutput (os tr2) fOld fNew = (data, status)
       \<and> data \<noteq> []
       \<longrightarrow> fst (diffBytes os old new tr) = (data, None))
   \<and> (snd (fst (diffBytes os old new tr)) \<noteq> None
        \<longleftrightarrow> isl (fst (writeTmpFile os old tr))
            \<or> (\<exists>fOld tr1. writeTmpFile os old tr = (Inr fOld, tr1)
                  \<and> (isl (fst (writeTmpFile os new tr1))
                      \<or> (\<exists>fNew tr2. writeTmpFile os new tr1 = (Inr fNew, tr2)
                            \<and> fst (exec_CombinedOutput (os tr2) fOld fNew) = []
                            \<and> snd (exec_CombinedOutput (os tr2) fOld fNew) \<noteq> None))))
   \<and> (\<forall>content tr'.
          isl (fst (writeTmpFile os content tr'))
            \<longleftrightarrow> isl (ioutil_TempFile (os tr'))
                \<or> (\<exists>f. ioutil_TempFile (os tr') = Inr f
                       \<and> file_Write (os (tr' @ [TempFile])) f content \<noteq> None))"
proof (intro conjI)
  show "\<forall>content tr'.
          isl (fst (writeTmpFile os content tr'))
            \<longleftrightarrow> isl (ioutil_TempFile (os tr'))
                \<or> (\<exists>f. ioutil_TempFile (os tr') = Inr f
                       \<and> file_Write (os (tr' @ [TempFile])) f content \<noteq> None)"
    by (intro allI) (rule writeTmpFile_fails_iff)
next
  show "\<forall>fOld tr1 fNew tr2 data status.
       writeTmpFile os old tr = (Inr fOld, tr1)
       \<and> writeTmpFile os new tr1 = (Inr fNew, tr2)
       \<and> exec_CombinedOutput (os tr2) fOld fNew = (data, status)
       \<and> data \<noteq> []
       \<longrightarrow> fst (diffBytes os old new tr) = (data, None)"
    by (intro allI impI, elim conjE) (simp add: diffBytes_runs)
next
  obtain r1 tr1 where w1: "writeTmpFile os old tr = (r1, tr1)"
    by (cases "writeTmpFile os old tr")
  show "snd (fst (diffBytes os old new tr)) \<noteq> None
        \<longleftrightarrow> isl (fst (writeTmpFile os old tr))
            \<or> (\<exists>fOld tr1. writeTmpFile os old tr = (Inr fOld, tr1)
                  \<and> (isl (fst (writeTmpFile os new tr1))
                      \<or> (\<exists>fNew tr2. writeTmpFile os new tr1 = (Inr fNew, tr2)
                            \<and> fst (exec_CombinedOutput (os tr2) fOld fNew) = []
                            \<and> snd (exec_CombinedOutput (os tr2) fOld fNew) \<noteq> None)))"
  proof (cases r1)
    case (Inl err)
    with w1 show ?thesis by (simp add: diffBytes_first_fails)
  next
    case old_ok: (Inr fOld)
    obtain r2 tr2 where w2: "writeTmpFile os new tr1 = (r2, tr2)"
      by (cases "writeTmpFile os new tr1")
    show ?thesis
    proof (cases r2)
      case (Inl err)
      with w1 w2 old_ok show ?thesis by (simp add: diffBytes_second_fails)
    next
      case new_ok: (Inr fNew)
      obtain data status where ex: "exec_CombinedOutput (os tr2) fOld fNew = (data, status)"
        by (cases "exec_CombinedOutput (os tr2) fOld fNew")
      from w1 w2 old_ok new_ok ex show ?thesis
        by (simp add: diffBytes_runs)
    qed
  qed
qed

theorem diffBytes_error_iff_witness:
  "writeTmpFile demoOs ''old'' [] = (Inr ''/tmp/beatfmt1'', [TempFile, TempWrite ''/tmp/beatfmt1'' ''old''])
   \<and> writeTmpFile demoOs ''new'' [TempFile, TempWrite ''/tmp/beatfmt1'' ''old'']
       = (Inr ''/tmp/beatfmt2'',
          [TempFile, TempWrite ''/tmp/beatfmt1'' ''old'', TempFile, TempWrite ''/tmp/beatfmt2'' ''new''])
   \<and> snd (exec_CombinedOutput
             (demoOs [TempFile, TempWrite ''/tmp/beatfmt1'' ''old'', TempFile,
                      TempWrite ''/tmp/beatfmt2'' ''new''])
             ''/tmp/beatfmt1'' ''/tmp/beatfmt2'') = Some (Error ''exit status 1'')
   \<and> fst (diffBytes demoOs ''old'' ''new'' [])
       = (''--- /tmp/beatfmt1\<newline>+++ /tmp/beatfmt2\<newline>'', None)"
proof -
  let ?tr1 = "[TempFile, TempWrite ''/tmp/beatfmt1'' ''old'']"
  let ?tr2 = "[TempFile, TempWrite ''/tmp/beatfmt1'' ''old'', TempFile, TempWrite ''/tmp/beatfmt2'' ''new'']"
  have w1: "writeTmpFile demoOs ''old'' [] = (Inr ''/tmp/beatfmt1'', ?tr1)"
    by (simp add: writeTmpFile_def demo_defs)
  have w2: "writeTmpFile demoOs ''new'' ?tr1 = (Inr ''/tmp/beatfmt2'', ?tr2)"
    by (simp add: writeTmpFile_def demo_defs)
  have ex: "exec_CombinedOutput (demoOs ?tr2) ''/tmp/beatfmt1'' ''/tmp/beatfmt2''
              = (''--- /tmp/beatfmt1\<newline>+++ /tmp/beatfmt2\<newline>'', Some (Error ''exit status 1''))"
    by (simp add: demo_defs)
  have ne: "''--- /tmp/beatfmt1\<newline>+++ /tmp/beatfmt2\<newline>'' \<noteq> []"
    by simp
  from diffBytes_error_iff [where os = demoOs and tr = "[]" and old = "''old''" and new = "''new''"]
  have "\<forall>fOld tr1 fNew tr2 data status.
       writeTmpFile demoOs ''old'' [] = (Inr fOld, tr1)
       \<and> writeTmpFile demoOs ''new'' tr1 = (Inr fNew, tr2)
       \<and> exec_CombinedOutput (demoOs tr2) fOld fNew = (data, status)
       \<and> data \<noteq> []
       \<longrightarrow> fst (diffBytes demoOs ''old'' ''new'' []) = (data, None)"
    by (rule conjunct1)
  with w1 w2 ex ne
  have "fst (diffBytes demoOs ''old'' ''new'' [])
          = (''--- /tmp/beatfmt1\<newline>+++ /tmp/beatfmt2\<newline>'', None)"
    by blast
  with w1 w2 ex show ?thesis by simp
qed

section \<open>The output of processFile\<close>

lemma processFile_after_pipeline:
  assumes "processFile_pipeline os s filename inp tr = (Inr (src, res), tr1)"
  shows "processFile os s filename inp out stdin tr = processFile_output os s filename out src res tr1"
  using assms by (simp add: processFile_def)

lemma output_list_only:
  assumes "src \<noteq> res"
  shows "processFile_output os (onlyFlags s True False False) filename out src res tr
           = (None, tr @ [Write os_Stdout (fmt_Sprint (os tr) out @ '' '' @ filename @ ''\<newline>'')])"
  using assms by (simp add: processFile_output_def onlyFlags_def)

lemma output_overwrite_only:
  assumes "src \<noteq> res"
  shows "processFile_output os (onlyFlags s False True False) filename out src res tr
           = (ioutil_WriteFile (os tr) filename res, tr @ [WriteFile filename res])"
  using assms
  by (cases "ioutil_WriteFile (os tr) filename res")
     (simp_all add: processFile_output_def onlyFlags_def)

lemma output_diff_only:
  assumes "src \<noteq> res"
  shows "processFile_output os (onlyFlags s False False True) filename out src res tr
           = (case diffBytes os src res tr of
                ((data, Some err), tr3) \<Rightarrow> (Some (Error (''computing diff: '' @ Error_msg err)), tr3)
              | ((data, None), tr3) \<Rightarrow>
                  (None, tr3 @ [Write os_Stdout (''diff '' @ filename @ '' gofmt/'' @ filename
                                                   @ ''\<newline>''),
                                Write out data]))"
proof -
  obtain data err tr3 where d: "diffBytes os src res tr = ((data, err), tr3)"
    by (cases "diffBytes os src res tr") auto
  show ?thesis
    using assms d
    by (cases err) (simp_all add: processFile_output_def onlyFlags_def)
qed

lemma output_no_flags:
  assumes "src \<noteq> res" and "\<not> list s" and "\<not> overwrite s" and "\<not> diff s"
  shows "processFile_output os s filename out src res tr = (None, tr @ [Write out res])"
  using assms by (simp add: processFile_output_def)

lemma output_changed_sequence:
  assumes "src \<noteq> res" and "list s \<or> overwrite s \<or> diff s"
  shows "processFile_output os s filename out src res tr
           = andThen (if list s
                      then processFile_output os (onlyFlags s True False False) filename out src res
                      else skip)
               (andThen (if overwrite s
                         then processFile_output os (onlyFlags s False True False) filename out src res
                         else skip)
                  (if diff s
                   then processFile_output os (onlyFlags s False False True) filename out src res
                   else skip)) tr"
proof -
  let ?line = "Write os_Stdout (fmt_Sprint (os tr) out @ '' '' @ filename @ ''\<newline>'')"
  define tr1 where "tr1 = (if list s then tr @ [?line] else tr)"
  have l: "(if list s
            then processFile_output os (onlyFlags s True False False) filename out src res
            else skip) tr = (None, tr1)"
    using assms(1) by (simp add: output_list_only skip_def tr1_def)
  define w where "w = (if overwrite s then ioutil_WriteFile (os tr1) filename res else None)"
  define tr2 where "tr2 = (if overwrite s then tr1 @ [WriteFile filename res] else tr1)"
  have ow: "(if overwrite s
             then processFile_output os (onlyFlags s False True False) filename out src res
             else skip) tr1 = (w, tr2)"
    using assms(1) by (simp add: output_overwrite_only skip_def w_def tr2_def)
  have body: "processFile_output os s filename out src res tr
               = (case (if overwrite s
                        then (ioutil_WriteFile (os tr1) filename res, tr1 @ [WriteFile filename res])
                        else (None, tr1)) of
                    (Some err, tr2) \<Rightarrow> (Some err, tr2)
                  | (None, tr2) \<Rightarrow>
                      (case (if diff s then
                               (case diffBytes os src res tr2 of
                                  ((data, Some err), tr3) \<Rightarrow>
                                    (Some (Error (''computing diff: '' @ Error_msg err)), tr3)
                                | ((data, None), tr3) \<Rightarrow>
                                    (None, tr3 @ [Write os_Stdout
                                                    (''diff '' @ filename @ '' gofmt/'' @ filename
                                                     @ ''\<newline>''),
                                                  Write out data]))
                             else (None, tr2)) of
                         (Some err, tr4) \<Rightarrow> (Some err, tr4)
                       | (None, tr4) \<Rightarrow>
                           (if \<not> list s \<and> \<not> overwrite s \<and> \<not> diff s
                            then (None, tr4 @ [Write out res])
                            else (None, tr4))))"
    using assms(1) by (simp add: processFile_output_def Let_def tr1_def)
  have pre: "(if overwrite s
              then (ioutil_WriteFile (os tr1) filename res, tr1 @ [WriteFile filename res])
              else (None, tr1)) = (w, tr2)"
    by (simp add: w_def tr2_def)
  have lhs: "processFile_output os s filename out src res tr
               = (case w of
                    Some err \<Rightarrow> (Some err, tr2)
                  | None \<Rightarrow>
                      (if diff s
                       then processFile_output os (onlyFlags s False False True) filename out src res
                       else skip) tr2)"
  proof (cases w)
    case (Some err)
    then show ?thesis by (simp add: body pre)
  next
    case None
    obtain data err tr3 where d: "diffBytes os src res tr2 = ((data, err), tr3)"
      by (cases "diffBytes os src res tr2") auto
    show ?thesis
    proof (cases "diff s")
      case True
      have dd: "processFile_output os (onlyFlags s False False True) filename out src res tr2
                  = (case err of
                       Some e \<Rightarrow> (Some (Error (''computing diff: '' @ Error_msg e)), tr3)
                     | None \<Rightarrow>
                         (None, tr3 @ [Write os_Stdout (''diff '' @ filename @ '' gofmt/'' @ filename
                                                          @ ''\<newline>''),
                                       Write out data]))"
        by (cases err) (simp_all add: output_diff_only [OF assms(1)] d)
      from None True d show ?thesis
        by (cases err) (simp_all add: body pre dd)
    next
      case False
      with None assms(2) show ?thesis
        by (auto simp: body pre skip_def)
    qed
  qed
  show ?thesis
    unfolding andThen_def [of _ _ tr] l
    by (simp add: andThen_def ow lhs split: option.splits)
qed

lemma searchLoop_reads:
  "\<exists>evs. snd (searchLoop os root lt dir tr) = tr @ evs \<and> list_all isRead evs"
proof -
  from searchLoop_trace [of root dir os lt tr]
  obtain n where "snd (searchLoop os root lt dir tr) = searchPre lt (searchDirs root dir) tr n"
    by blast
  then have "snd (searchLoop os root lt dir tr)
               = tr @ map (\<lambda>j. Stat (headerPath lt (searchDirs root dir) j)) [0..<n]"
    by (simp add: searchPre_def)
  moreover have "list_all isRead (map (\<lambda>j. Stat (headerPath lt (searchDirs root dir) j)) [0..<n])"
    by (simp add: list_all_iff)
  ultimately show ?thesis by blast
qed

lemma target_reads:
  "\<exists>evs. snd (processFile_target os s filename tr) = tr @ evs \<and> list_all isRead evs"
proof (cases "srcDir s = []")
  case True
  then show ?thesis by (simp add: processFile_target_def)
next
  case False
  have "snd (processFile_target os s filename tr) = tr @ [Stat (srcDir s)]
        \<or> snd (processFile_target os s filename tr) = tr @ [Stat (srcDir s), Stat (srcDir s)]"
    using False
    by (simp add: processFile_target_def isFile_def isDir_def Let_def split_beta)
  then show ?thesis
  proof
    assume "snd (processFile_target os s filename tr) = tr @ [Stat (srcDir s)]"
    then show ?thesis by (intro exI [of _ "[Stat (srcDir s)]"]) simp
  next
    assume "snd (processFile_target os s filename tr) = tr @ [Stat (srcDir s), Stat (srcDir s)]"
    then show ?thesis by (intro exI [of _ "[Stat (srcDir s), Stat (srcDir s)]"]) simp
  qed
qed

lemma search_reads:
  "\<exists>evs. snd (processFile_search os s target tr) = tr @ evs \<and> list_all isRead evs"
proof (cases "filepath_Abs (os tr) (if licSearchCWD s then ''.'' else target)")
  case (Inl err)
  then have "snd (processFile_search os s target tr) = tr"
    by (simp add: processFile_search_def Let_def split: if_splits)
  then show ?thesis by simp
next
  case (Inr start)
  from searchLoop_reads [of os "searchRoot (os tr)" licenseFileName "abs_Dir start" tr]
  show ?thesis
    by (simp add: processFile_search_loop [where os = os and tr = tr, OF Inr])
qed

lemma formatters_reads:
  "\<exists>evs. snd (processFile_formatters os lic tr) = tr @ evs \<and> list_all isRead evs"
proof (cases "lic = []")
  case True
  then show ?thesis by (simp add: processFile_formatters_def)
next
  case False
  then have "snd (processFile_formatters os lic tr) = tr @ [ReadFile lic]"
    by (simp add: processFile_formatters_def split: sum.splits)
  then show ?thesis by (intro exI [of _ "[ReadFile lic]"]) simp
qed

lemma read_reads:
  "\<exists>evs. snd (processFile_read os filename inp tr) = tr @ evs \<and> list_all isRead evs"
proof (cases inp)
  case (Some r)
  then have "snd (processFile_read os filename inp tr) = tr @ [ReadAll r]"
    by (simp add: processFile_read_def)
  then show ?thesis by (intro exI [of _ "[ReadAll r]"]) simp
next
  case None
  show ?thesis
  proof (cases "os_Open (os tr) filename")
    case (Some err)
    with None have "snd (processFile_read os filename inp tr) = tr @ [Open filename]"
      by (simp add: processFile_read_def)
    then show ?thesis by (intro exI [of _ "[Open filename]"]) simp
  next
    case no_err: None
    with None have "snd (processFile_read os filename inp tr)
                      = tr @ [Open filename, ReadAll (File filename)]"
      by (simp add: processFile_read_def)
    then show ?thesis by (intro exI [of _ "[Open filename, ReadAll (File filename)]"]) simp
  qed
qed

lemma pipeline_reads:
  "\<exists>evs. snd (processFile_pipeline os s filename inp tr) = tr @ evs \<and> list_all isRead evs"
proof -
  obtain target tr1 where t: "processFile_target os s filename tr = (target, tr1)"
    by (cases "processFile_target os s filename tr")
  from target_reads [of os s filename tr] t
  obtain e1 where e1: "tr1 = tr @ e1" "list_all isRead e1" by auto
  define sr where "sr = (if license s = [] then processFile_search os s target tr1
                         else (Inr (license s), tr1))"
  obtain r2 tr2 where s2: "sr = (r2, tr2)" by (cases sr)
  have "\<exists>evs. snd sr = tr1 @ evs \<and> list_all isRead evs"
    using search_reads [of os s target tr1] by (simp add: sr_def)
  with s2 obtain e2 where e2: "tr2 = tr1 @ e2" "list_all isRead e2" by auto
  have p: "processFile_pipeline os s filename inp tr
             = (case (r2, tr2) of
                  (Inl err, tr2) \<Rightarrow> (Inl err, tr2)
                | (Inr lic, tr2) \<Rightarrow>
                    (case processFile_formatters os lic tr2 of
                       (Inl err, tr3) \<Rightarrow> (Inl err, tr3)
                     | (Inr formatters, tr3) \<Rightarrow>
                         (case processFile_read os filename inp tr3 of
                            (Inl err, tr4) \<Rightarrow> (Inl err, tr4)
                          | (Inr src, tr4) \<Rightarrow>
                              (case applyFormatters
                                      (formatters @ [formatSource (os tr4) (allErrors s)])
                                      target src of
                                 Inl err \<Rightarrow> (Inl err, tr4)
                               | Inr res \<Rightarrow> (Inr (src, res), tr4)))))"
    using t s2 by (simp add: processFile_pipeline_def sr_def)
  show ?thesis
  proof (cases r2)
    case (Inl err)
    with p have "snd (processFile_pipeline os s filename inp tr) = tr @ (e1 @ e2)"
      using e1 e2 by simp
    with e1 e2 show ?thesis by (intro exI [of _ "e1 @ e2"]) simp
  next
    case (Inr lic)
    obtain r3 tr3 where f3: "processFile_formatters os lic tr2 = (r3, tr3)"
      by (cases "processFile_formatters os lic tr2")
    from formatters_reads [of os lic tr2] f3
    obtain e3 where e3: "tr3 = tr2 @ e3" "list_all isRead e3" by auto
    show ?thesis
    proof (cases r3)
      case err: (Inl e)
      with p Inr f3 have "snd (processFile_pipeline os s filename inp tr) = tr @ (e1 @ e2 @ e3)"
        using e1 e2 e3 by simp
      with e1 e2 e3 show ?thesis by (intro exI [of _ "e1 @ e2 @ e3"]) simp
    next
      case fs: (Inr formatters)
      obtain r4 tr4 where f4: "processFile_read os filename inp tr3 = (r4, tr4)"
        by (cases "processFile_read os filename inp tr3")
      from read_reads [of os filename inp tr3] f4
      obtain e4 where e4: "tr4 = tr3 @ e4" "list_all isRead e4" by auto
      have "snd (processFile_pipeline os s filename inp tr) = tr4"
        using p Inr f3 fs f4 by (simp split: sum.splits)
      then have "snd (processFile_pipeline os s filename inp tr) = tr @ (e1 @ e2 @ e3 @ e4)"
        using e1 e2 e3 e4 by simp
      with e1 e2 e3 e4 show ?thesis by (intro exI [of _ "e1 @ e2 @ e3 @ e4"]) simp
    qed
  qed
qed

lemmas run_defs = processFile_pipeline_def processFile_target_def processFile_search_def
  processFile_formatters_def processFile_read_def formatSource_def licenseHeader_def
  ContainsHeader_def RewriteWithHeader_def headerBytes_def scanLines.simps searchLoop_unfold

lemma demo_pipeline_a:
  "processFile_pipeline demoOs (demoSettings\<lparr>overwrite := w, diff := d, list := l\<rparr>)
      ''/root/pkg/a.go'' None []
     = (Inr (''package main\<newline>'', ''// H1\<newline>// H2\<newline>\<newline>package main\<newline>''),
        [Stat ''/root/pkg/.go_license_header'', ReadFile ''/root/pkg/.go_license_header'',
         Open ''/root/pkg/a.go'', ReadAll (File ''/root/pkg/a.go'')])"
  by (simp add: run_defs demo_defs path_defs)

lemma demo_pipeline_ok:
  "processFile_pipeline demoOs (demoSettings\<lparr>overwrite := w, diff := d, list := l\<rparr>)
      ''/root/pkg/ok.go'' None []
     = (Inr (''// H1\<newline>// H2\<newline>\<newline>package main\<newline>'',
             ''// H1\<newline>// H2\<newline>\<newline>package main\<newline>''),
        [Stat ''/root/pkg/.go_license_header'', ReadFile ''/root/pkg/.go_license_header'',
         Open ''/root/pkg/ok.go'', ReadAll (File ''/root/pkg/ok.go'')])"
  by (simp add: run_defs demo_defs path_defs)


text \<open>
  C5: when the result of the stages is the source, byte for byte, the program does
  nothing but stream it: with none of the three flags set it writes the result to
  \<open>out\<close> and returns what the write returns, and with any of them set it does nothing
  and returns no error. All the other events of the call only read the environment.
\<close>

theorem processFile_unchanged:
  assumes "processFile_pipeline os s filename inp tr = (Inr (src, res), tr1)"
    and "src = res"
  shows "processFile os s filename inp out stdin tr
           = (if \<not> list s \<and> \<not> overwrite s \<and> \<not> diff s
              then (io_Write (os tr1) out res, tr1 @ [Write out res])
              else (None, tr1))
         \<and> (\<exists>evs. snd (processFile os s filename inp out stdin tr) = tr @ evs
                \<and> filter (\<lambda>e. \<not> isRead e) evs
                    = (if \<not> list s \<and> \<not> overwrite s \<and> \<not> diff s then [Write out res] else []))"
proof
  show run: "processFile os s filename inp out stdin tr
           = (if \<not> list s \<and> \<not> overwrite s \<and> \<not> diff s
              then (io_Write (os tr1) out res, tr1 @ [Write out res])
              else (None, tr1))"
    using assms by (simp add: processFile_def processFile_output_def)
  from pipeline_reads [of os s filename inp tr] assms(1)
  obtain evs where evs: "tr1 = tr @ evs" "list_all isRead evs" by auto
  from evs(2) have none: "filter (\<lambda>e. \<not> isRead e) evs = []"
    by (simp add: list_all_iff)
  show "\<exists>evs. snd (processFile os s filename inp out stdin tr) = tr @ evs
                \<and> filter (\<lambda>e. \<not> isRead e) evs
                    = (if \<not> list s \<and> \<not> overwrite s \<and> \<not> diff s then [Write out res] else [])"
  proof (cases "\<not> list s \<and> \<not> overwrite s \<and> \<not> diff s")
    case True
    with run evs none show ?thesis
      by (intro exI [of _ "evs @ [Write out res]"]) simp
  next
    case False
    with run evs none show ?thesis
      by (intro exI [of _ evs]) auto
  qed
qed

theorem processFile_unchanged_witness:
  "processFile_pipeline demoOs (demoSettings\<lparr>overwrite := True, diff := True, list := True\<rparr>)
      ''/root/pkg/ok.go'' None []
     = (Inr (''// H1\<newline>// H2\<newline>\<newline>package main\<newline>'',
             ''// H1\<newline>// H2\<newline>\<newline>package main\<newline>''),
        [Stat ''/root/pkg/.go_license_header'', ReadFile ''/root/pkg/.go_license_header'',
         Open ''/root/pkg/ok.go'', ReadAll (File ''/root/pkg/ok.go'')])
   \<and> processFile demoOs (demoSettings\<lparr>overwrite := True, diff := True, list := True\<rparr>)
        ''/root/pkg/ok.go'' None os_Stdout False []
       = (None,
          [Stat ''/root/pkg/.go_license_header'', ReadFile ''/root/pkg/.go_license_header'',
           Open ''/root/pkg/ok.go'', ReadAll (File ''/root/pkg/ok.go'')])
   \<and> processFile_pipeline demoOs (demoSettings\<lparr>overwrite := False, diff := False, list := False\<rparr>)
      ''/root/pkg/ok.go'' None []
     = (Inr (''// H1\<newline>// H2\<newline>\<newline>package main\<newline>'',
             ''// H1\<newline>// H2\<newline>\<newline>package main\<newline>''),
        [Stat ''/root/pkg/.go_license_header'', ReadFile ''/root/pkg/.go_license_header'',
         Open ''/root/pkg/ok.go'', ReadAll (File ''/root/pkg/ok.go'')])
   \<and> processFile demoOs (demoSettings\<lparr>overwrite := False, diff := False, list := False\<rparr>)
        ''/root/pkg/ok.go'' None os_Stdout False []
       = (None,
          [Stat ''/root/pkg/.go_license_header'', ReadFile ''/root/pkg/.go_license_header'',
           Open ''/root/pkg/ok.go'', ReadAll (File ''/root/pkg/ok.go''),
           Write os_Stdout ''// H1\<newline>// H2\<newline>\<newline>package main\<newline>''])"
proof -
  note p1 = demo_pipeline_ok [of True True True]
  note p2 = demo_pipeline_ok [of False False False]
  note u1 = processFile_unchanged [where os = demoOs and tr = "[]", OF p1 refl,
      of os_Stdout False, THEN conjunct1]
  note u2 = processFile_unchanged [where os = demoOs and tr = "[]", OF p2 refl,
      of os_Stdout False, THEN conjunct1]
  have w: "io_Write (demoOs [Stat ''/root/pkg/.go_license_header'',
                             ReadFile ''/root/pkg/.go_license_header'',
                             Open ''/root/pkg/ok.go'', ReadAll (File ''/root/pkg/ok.go'')])
             os_Stdout ''// H1\<newline>// H2\<newline>\<newline>package main\<newline>'' = None"
    by (simp add: demo_defs)
  have r1: "processFile demoOs (demoSettings\<lparr>overwrite := True, diff := True, list := True\<rparr>)
        ''/root/pkg/ok.go'' None os_Stdout False []
       = (None,
          [Stat ''/root/pkg/.go_license_header'', ReadFile ''/root/pkg/.go_license_header'',
           Open ''/root/pkg/ok.go'', ReadAll (File ''/root/pkg/ok.go'')])"
    using u1 by simp
  have r2: "processFile demoOs (demoSettings\<lparr>overwrite := False, diff := False, list := False\<rparr>)
        ''/root/pkg/ok.go'' None os_Stdout False []
       = (None,
          [Stat ''/root/pkg/.go_license_header'', ReadFile ''/root/pkg/.go_license_header'',
           Open ''/root/pkg/ok.go'', ReadAll (File ''/root/pkg/ok.go''),
           Write os_Stdout ''// H1\<newline>// H2\<newline>\<newline>package main\<newline>''])"
    using u2 w by simp
  from p1 r1 p2 r2 show ?thesis by (intro conjI)
qed

text \<open>
  C6: for a result that differs from the source, the three branches are gated each by
  its own flag. With none of the flags set the result is streamed to \<open>out\<close>, and this is
  the only case in which it is. With some flag set the call does, in this order, what it
  does with the list flag alone if that flag is set, what it does with the overwrite flag
  alone if that flag is set, and what it does with the diff flag alone if that flag is
  set; an action that returns an error ends the call. Alone, the list flag prints one
  line, the overwrite flag writes the file, and the diff flag runs the diff and prints
  the banner and the data.
\<close>

theorem processFile_changed_independent:
  assumes "processFile_pipeline os s filename inp tr = (Inr (src, res), tr1)"
    and "src \<noteq> res"
  shows "processFile os s filename inp out stdin tr
           = (if \<not> list s \<and> \<not> overwrite s \<and> \<not> diff s then (None, tr1 @ [Write out res])
              else andThen
                     (if list s
                      then processFile_output os (onlyFlags s True False False) filename out src res
                      else skip)
                     (andThen
                        (if overwrite s
                         then processFile_output os (onlyFlags s False True False) filename out src res
                         else skip)
                        (if diff s
                         then processFile_output os (onlyFlags s False False True) filename out src res
                         else skip)) tr1)
         \<and> (\<forall>tr'. processFile_output os (onlyFlags s True False False) filename out src res tr'
                    = (None, tr' @ [Write os_Stdout
                                      (fmt_Sprint (os tr') out @ '' '' @ filename @ ''\<newline>'')]))
         \<and> (\<forall>tr'. processFile_output os (onlyFlags s False True False) filename out src res tr'
                    = (ioutil_WriteFile (os tr') filename res, tr' @ [WriteFile filename res]))
         \<and> (\<forall>tr'. processFile_output os (onlyFlags s False False True) filename out src res tr'
                    = (case diffBytes os src res tr' of
                         ((data, Some err), tr3) \<Rightarrow>
                           (Some (Error (''computing diff: '' @ Error_msg err)), tr3)
                       | ((data, None), tr3) \<Rightarrow>
                           (None, tr3 @ [Write os_Stdout (''diff '' @ filename @ '' gofmt/''
                                                            @ filename @ ''\<newline>''),
                                         Write out data])))"
proof (intro conjI allI)
  show "processFile os s filename inp out stdin tr
           = (if \<not> list s \<and> \<not> overwrite s \<and> \<not> diff s then (None, tr1 @ [Write out res])
              else andThen
                     (if list s
                      then processFile_output os (onlyFlags s True False False) filename out src res
                      else skip)
                     (andThen
                        (if overwrite s
                         then processFile_output os (onlyFlags s False True False) filename out src res
                         else skip)
                        (if diff s
                         then processFile_output os (onlyFlags s False False True) filename out src res
                         else skip)) tr1)"
  proof (cases "\<not> list s \<and> \<not> overwrite s \<and> \<not> diff s")
    case True
    then show ?thesis
      using output_no_flags [OF assms(2), of s os filename out tr1]
      by (simp add: processFile_after_pipeline [OF assms(1)])
  next
    case False
    then have some: "list s \<or> overwrite s \<or> diff s" by blast
    from False show ?thesis
      by (simp only: processFile_after_pipeline [OF assms(1)]
            output_changed_sequence [OF assms(2) some] if_False)
  qed
qed (simp_all only: output_list_only [OF assms(2)] output_overwrite_only [OF assms(2)]
       output_diff_only [OF assms(2)])

theorem processFile_changed_independent_witness:
  "processFile_pipeline demoOs (demoSettings\<lparr>overwrite := True, diff := True, list := True\<rparr>)
      ''/root/pkg/a.go'' None []
     = (Inr (''package main\<newline>'', ''// H1\<newline>// H2\<newline>\<newline>package main\<newline>''),
        [Stat ''/root/pkg/.go_license_header'', ReadFile ''/root/pkg/.go_license_header'',
         Open ''/root/pkg/a.go'', ReadAll (File ''/root/pkg/a.go'')])
   \<and> ''package main\<newline>'' \<noteq> ''// H1\<newline>// H2\<newline>\<newline>package main\<newline>''
   \<and> processFile demoOs (demoSettings\<lparr>overwrite := True, diff := True, list := True\<rparr>)
        ''/root/pkg/a.go'' None os_Stdout False []
       = (None,
          [Stat ''/root/pkg/.go_license_header'', ReadFile ''/root/pkg/.go_license_header'',
           Open ''/root/pkg/a.go'', ReadAll (File ''/root/pkg/a.go''),
           Write os_Stdout ''&{0xc000012018} /root/pkg/a.go\<newline>'',
           WriteFile ''/root/pkg/a.go'' ''// H1\<newline>// H2\<newline>\<newline>package main\<newline>'',
           TempFile, TempWrite ''/tmp/beatfmt1'' ''package main\<newline>'',
           TempFile, TempWrite ''/tmp/beatfmt2'' ''// H1\<newline>// H2\<newline>\<newline>package main\<newline>'',
           Exec ''/tmp/beatfmt1'' ''/tmp/beatfmt2'', Remove ''/tmp/beatfmt2'', Remove ''/tmp/beatfmt1'',
           Write os_Stdout ''diff /root/pkg/a.go gofmt//root/pkg/a.go\<newline>'',
           Write os_Stdout ''--- /tmp/beatfmt1\<newline>+++ /tmp/beatfmt2\<newline>''])
   \<and> processFile demoOs (demoSettings\<lparr>overwrite := False, diff := False, list := False\<rparr>)
        ''/root/pkg/a.go'' None os_Stdout False []
       = (None,
          [Stat ''/root/pkg/.go_license_header'', ReadFile ''/root/pkg/.go_license_header'',
           Open ''/root/pkg/a.go'', ReadAll (File ''/root/pkg/a.go''),
           Write os_Stdout ''// H1\<newline>// H2\<newline>\<newline>package main\<newline>''])"
proof -
  note p1 = demo_pipeline_a [of True True True]
  note p2 = demo_pipeline_a [of False False False]
  have ne: "''package main\<newline>'' \<noteq> ''// H1\<newline>// H2\<newline>\<newline>package main\<newline>''"
    by simp
  note u1 = processFile_changed_independent [where os = demoOs and tr = "[]", OF p1 ne,
      of os_Stdout False, THEN conjunct1]
  note u2 = processFile_changed_independent [where os = demoOs and tr = "[]", OF p2 ne,
      of os_Stdout False, THEN conjunct1]
  have r1: "processFile demoOs (demoSettings\<lparr>overwrite := True, diff := True, list := True\<rparr>)
        ''/root/pkg/a.go'' None os_Stdout False []
       = (None,
          [Stat ''/root/pkg/.go_license_header'', ReadFile ''/root/pkg/.go_license_header'',
           Open ''/root/pkg/a.go'', ReadAll (File ''/root/pkg/a.go''),
           Write os_Stdout ''&{0xc000012018} /root/pkg/a.go\<newline>'',
           WriteFile ''/root/pkg/a.go'' ''// H1\<newline>// H2\<newline>\<newline>package main\<newline>'',
           TempFile, TempWrite ''/tmp/beatfmt1'' ''package main\<newline>'',
           TempFile, TempWrite ''/tmp/beatfmt2'' ''// H1\<newline>// H2\<newline>\<newline>package main\<newline>'',
           Exec ''/tmp/beatfmt1'' ''/tmp/beatfmt2'', Remove ''/tmp/beatfmt2'', Remove ''/tmp/beatfmt1'',
           Write os_Stdout ''diff /root/pkg/a.go gofmt//root/pkg/a.go\<newline>'',
           Write os_Stdout ''--- /tmp/beatfmt1\<newline>+++ /tmp/beatfmt2\<newline>''])"
    using u1
    by (simp add: andThen_def skip_def output_list_only output_overwrite_only output_diff_only
          diffBytes_def writeTmpFile_def demo_defs)
  have r2: "processFile demoOs (demoSettings\<lparr>overwrite := False, diff := False, list := False\<rparr>)
        ''/root/pkg/a.go'' None os_Stdout False []
       = (None,
          [Stat ''/root/pkg/.go_license_header'', ReadFile ''/root/pkg/.go_license_header'',
           Open ''/root/pkg/a.go'', ReadAll (File ''/root/pkg/a.go''),
           Write os_Stdout ''// H1\<newline>// H2\<newline>\<newline>package main\<newline>''])"
    using u2 by simp
  from p1 ne r1 r2 show ?thesis by (intro conjI)
qed

text \<open>
  C3 on the code: in list mode the name of a changed file is not written to \<open>out\<close>. The
  call is \<^verbatim>\<open>fmt.Println(out, filename)\<close>, which prints the writer and then the name on
  the standard output. With the list flag alone and a writer that prints as
  \<^verbatim>\<open>report\<close>, nothing is written to that writer and the standard output gets the line
  \<^verbatim>\<open>report /root/pkg/a.go\<close>; with the standard output as \<open>out\<close>, as \<^verbatim>\<open>main\<close> calls
  it, the line starts with the writer and not with the name.
\<close>

theorem list_mode_prints_on_stdout:
  "processFile demoOs (demoSettings\<lparr>overwrite := False, diff := False, list := True\<rparr>)
      ''/root/pkg/a.go'' None (Writer ''report'') False []
     = (None,
        [Stat ''/root/pkg/.go_license_header'', ReadFile ''/root/pkg/.go_license_header'',
         Open ''/root/pkg/a.go'', ReadAll (File ''/root/pkg/a.go''),
         Write os_Stdout ''report /root/pkg/a.go\<newline>''])
   \<and> processFile demoOs (demoSettings\<lparr>overwrite := False, diff := False, list := True\<rparr>)
        ''/root/pkg/a.go'' None os_Stdout False []
       = (None,
          [Stat ''/root/pkg/.go_license_header'', ReadFile ''/root/pkg/.go_license_header'',
           Open ''/root/pkg/a.go'', ReadAll (File ''/root/pkg/a.go''),
           Write os_Stdout ''&{0xc000012018} /root/pkg/a.go\<newline>''])"
proof -
  note p = demo_pipeline_a [where l = True and w = False and d = False]
  have o1: "processFile_output demoOs (demoSettings\<lparr>overwrite := False, diff := False, list := True\<rparr>)
              ''/root/pkg/a.go'' (Writer ''report'') ''package main\<newline>''
              ''// H1\<newline>// H2\<newline>\<newline>package main\<newline>''
              [Stat ''/root/pkg/.go_license_header'', ReadFile ''/root/pkg/.go_license_header'',
               Open ''/root/pkg/a.go'', ReadAll (File ''/root/pkg/a.go'')]
            = (None,
               [Stat ''/root/pkg/.go_license_header'', ReadFile ''/root/pkg/.go_license_header'',
                Open ''/root/pkg/a.go'', ReadAll (File ''/root/pkg/a.go''),
                Write os_Stdout ''report /root/pkg/a.go\<newline>''])"
    by (simp add: processFile_output_def demo_defs)
  have o2: "processFile_output demoOs (demoSettings\<lparr>overwrite := False, diff := False, list := True\<rparr>)
              ''/root/pkg/a.go'' os_Stdout ''package main\<newline>''
              ''// H1\<newline>// H2\<newline>\<newline>package main\<newline>''
              [Stat ''/root/pkg/.go_license_header'', ReadFile ''/root/pkg/.go_license_header'',
               Open ''/root/pkg/a.go'', ReadAll (File ''/root/pkg/a.go'')]
            = (None,
               [Stat ''/root/pkg/.go_license_header'', ReadFile ''/root/pkg/.go_license_header'',
                Open ''/root/pkg/a.go'', ReadAll (File ''/root/pkg/a.go''),
                Write os_Stdout ''&{0xc000012018} /root/pkg/a.go\<newline>''])"
    by (simp add: processFile_output_def demo_defs)
  have a1: "processFile demoOs (demoSettings\<lparr>overwrite := False, diff := False, list := True\<rparr>)
              ''/root/pkg/a.go'' None (Writer ''report'') False []
            = (None,
               [Stat ''/root/pkg/.go_license_header'', ReadFile ''/root/pkg/.go_license_header'',
                Open ''/root/pkg/a.go'', ReadAll (File ''/root/pkg/a.go''),
                Write os_Stdout ''report /root/pkg/a.go\<newline>''])"
    by (rule trans [OF processFile_after_pipeline [OF p] o1])
  have a2: "processFile demoOs (demoSettings\<lparr>overwrite := False, diff := False, list := True\<rparr>)
              ''/root/pkg/a.go'' None os_Stdout False []
            = (None,
               [Stat ''/root/pkg/.go_license_header'', ReadFile ''/root/pkg/.go_license_header'',
                Open ''/root/pkg/a.go'', ReadAll (File ''/root/pkg/a.go''),
                Write os_Stdout ''&{0xc000012018} /root/pkg/a.go\<newline>''])"
    by (rule trans [OF processFile_after_pipeline [OF p] o2])
  from a1 a2 show ?thesis by (intro conjI)
qed

section \<open>The walk and the exit code\<close>

lemma strings_HasPrefix_iff: "strings_HasPrefix s p \<longleftrightarrow> prefix p s"
proof
  assume "strings_HasPrefix s p"
  then have "take (length p) s = p" by (simp add: strings_HasPrefix_def)
  then have "s = p @ drop (length p) s" by (metis append_take_drop_id)
  then show "prefix p s" by (rule prefixI)
next
  assume "prefix p s"
  then obtain zs where "s = p @ zs" by (rule prefixE)
  then show "strings_HasPrefix s p" by (simp add: strings_HasPrefix_def)
qed

lemma strings_HasSuffix_iff: "strings_HasSuffix s x \<longleftrightarrow> suffix x s"
proof
  assume "strings_HasSuffix s x"
  then have "drop (length s - length x) s = x" by (simp add: strings_HasSuffix_def)
  then have "s = take (length s - length x) s @ x" by (metis append_take_drop_id)
  then show "suffix x s" by (rule suffixI)
next
  assume "suffix x s"
  then obtain zs where "s = zs @ x" by (rule suffixE)
  then show "strings_HasSuffix s x" by (simp add: strings_HasSuffix_def)
qed

lemma visitFile_returns_nil: "fst (visitFile os s path f tr) = None"
  by (simp add: visitFile_def split_beta split: option.splits)

lemma walkEntries_visitFile_nil: "fst (walkEntries (visitFile os s) entries tr) = None"
proof (induction entries arbitrary: tr)
  case Nil
  show ?case by simp
next
  case (Cons e entries)
  obtain path f where e: "e = (path, f)" by (cases e)
  obtain r tr1 where v: "visitFile os s path f tr = (r, tr1)"
    by (cases "visitFile os s path f tr")
  with visitFile_returns_nil [of os s path f tr] have "r = None" by simp
  with e v Cons show ?case by simp
qed

lemma walkEntries_visitFile_fold:
  "walkEntries (visitFile os s) entries tr
     = (None, foldl (\<lambda>tr' e. snd (visitFile os s (fst e) (snd e) tr')) tr entries)"
proof (induction entries arbitrary: tr)
  case Nil
  show ?case by simp
next
  case (Cons e entries)
  obtain path f where e: "e = (path, f)" by (cases e)
  obtain r tr1 where v: "visitFile os s path f tr = (r, tr1)"
    by (cases "visitFile os s path f tr")
  with visitFile_returns_nil [of os s path f tr] have "r = None" by simp
  with e v Cons [of tr1] show ?case by simp
qed

text \<open>
  C10: in a walk, an entry met without error is processed if and only if it is a regular
  file whose name ends in \<^verbatim>\<open>.go\<close> and does not start with a dot, and any other such
  entry is passed over without an event; a path of the command line that is not a
  directory is processed whatever its name, and one that is a directory is walked. An
  entry on which the walk itself reports an error is not looked at: the error is logged.
  The walk hands every entry it meets to \<^verbatim>\<open>visitFile\<close>, in order, each on the events
  left by the one before: its events are those of \<^verbatim>\<open>visitFile\<close> folded over the
  entries, and it returns no error.
\<close>

theorem visitFile_filter:
  "(isGoFile fi \<longleftrightarrow> Mode_IsRegular fi \<and> suffix ''.go'' (Name fi) \<and> \<not> prefix ''.'' (Name fi))
   \<and> visitFile os s path (Inr fi) tr
       = (if isGoFile fi
          then (case processFile os s path None os_Stdout False tr of
                  (Some err, tr1) \<Rightarrow> (None, tr1 @ [Log (Error_msg err)])
                | (None, tr1) \<Rightarrow> (None, tr1))
          else (None, tr))
   \<and> (os_Stat (os tr) path = Inr fi \<and> \<not> IsDir fi
        \<longrightarrow> main_paths os s (path # paths) exitCode tr
             = (case processFile os s path None os_Stdout False (tr @ [Stat path]) of
                  (Some err, tr1) \<Rightarrow> main_paths os s paths 1 (tr1 @ [Log (Error_msg err)])
                | (None, tr1) \<Rightarrow> main_paths os s paths exitCode tr1))
   \<and> (os_Stat (os tr) path = Inr fi \<and> IsDir fi
        \<longrightarrow> main_paths os s (path # paths) exitCode tr
             = main_paths os s paths exitCode
                 (foldl (\<lambda>tr' e. snd (visitFile os s (fst e) (snd e) tr')) (tr @ [Stat path])
                    (filepath_Walk_entries (os (tr @ [Stat path])) path)))
   \<and> visitFile os s path (Inl err) tr = (None, tr @ [Log (Error_msg err)])
   \<and> walkEntries (visitFile os s) entries tr
       = (None, foldl (\<lambda>tr' e. snd (visitFile os s (fst e) (snd e) tr')) tr entries)
   \<and> filepath_Walk os root (visitFile os s) tr
       = (None, foldl (\<lambda>tr' e. snd (visitFile os s (fst e) (snd e) tr')) tr
                  (filepath_Walk_entries (os tr) root))"
proof (intro conjI)
  show "walkEntries (visitFile os s) entries tr
       = (None, foldl (\<lambda>tr' e. snd (visitFile os s (fst e) (snd e) tr')) tr entries)"
    by (rule walkEntries_visitFile_fold)
next
  show "filepath_Walk os root (visitFile os s) tr
       = (None, foldl (\<lambda>tr' e. snd (visitFile os s (fst e) (snd e) tr')) tr
                  (filepath_Walk_entries (os tr) root))"
    by (simp only: filepath_Walk_def walkEntries_visitFile_fold)
next
  show "visitFile os s path (Inl err) tr = (None, tr @ [Log (Error_msg err)])"
    by (simp add: visitFile_def)
next
  show "isGoFile fi \<longleftrightarrow> Mode_IsRegular fi \<and> suffix ''.go'' (Name fi) \<and> \<not> prefix ''.'' (Name fi)"
    by (auto simp: isGoFile_def Let_def strings_HasPrefix_iff strings_HasSuffix_iff)
next
  show "visitFile os s path (Inr fi) tr
       = (if isGoFile fi
          then (case processFile os s path None os_Stdout False tr of
                  (Some err, tr1) \<Rightarrow> (None, tr1 @ [Log (Error_msg err)])
                | (None, tr1) \<Rightarrow> (None, tr1))
          else (None, tr))"
    by (simp add: visitFile_def split: prod.splits option.splits)
next
  show "os_Stat (os tr) path = Inr fi \<and> \<not> IsDir fi
        \<longrightarrow> main_paths os s (path # paths) exitCode tr
             = (case processFile os s path None os_Stdout False (tr @ [Stat path]) of
                  (Some err, tr1) \<Rightarrow> main_paths os s paths 1 (tr1 @ [Log (Error_msg err)])
                | (None, tr1) \<Rightarrow> main_paths os s paths exitCode tr1)"
    by simp
next
  show "os_Stat (os tr) path = Inr fi \<and> IsDir fi
        \<longrightarrow> main_paths os s (path # paths) exitCode tr
             = main_paths os s paths exitCode
                 (foldl (\<lambda>tr' e. snd (visitFile os s (fst e) (snd e) tr')) (tr @ [Stat path])
                    (filepath_Walk_entries (os (tr @ [Stat path])) path))"
    by (simp add: filepath_Walk_def walkEntries_visitFile_fold)
qed

lemma demo_pipeline_notes:
  "processFile_pipeline demoOs demoSettings ''/root/pkg/notes.txt'' None [Stat ''/root/pkg/notes.txt'']
     = (Inr (''package notes\<newline>'', ''// H1\<newline>// H2\<newline>\<newline>package notes\<newline>''),
        [Stat ''/root/pkg/notes.txt'', Stat ''/root/pkg/.go_license_header'',
         ReadFile ''/root/pkg/.go_license_header'',
         Open ''/root/pkg/notes.txt'', ReadAll (File ''/root/pkg/notes.txt'')])"
  by (simp add: run_defs demo_defs path_defs)

lemma demo_pipeline_other:
  "processFile_pipeline demoOs demoSettings ''/root/other/f.go'' None [Stat ''/root/other'']
     = (Inr (''package other\<newline>'', ''package other\<newline>''),
        [Stat ''/root/other'', Stat ''/root/other/.go_license_header'',
         Open ''/root/other/f.go'', ReadAll (File ''/root/other/f.go'')])"
  by (simp add: run_defs demo_defs path_defs)

theorem visitFile_filter_witness:
  "isGoFile \<lparr>Name = ''a.go'', Mode_IsRegular = True, IsDir = False\<rparr>
   \<and> \<not> isGoFile \<lparr>Name = ''.a.go'', Mode_IsRegular = True, IsDir = False\<rparr>
   \<and> \<not> isGoFile \<lparr>Name = ''README.md'', Mode_IsRegular = True, IsDir = False\<rparr>
   \<and> \<not> isGoFile \<lparr>Name = ''d.go'', Mode_IsRegular = False, IsDir = True\<rparr>
   \<and> visitFile demoOs demoSettings ''/root/bad/README.md''
        (Inr \<lparr>Name = ''README.md'', Mode_IsRegular = True, IsDir = False\<rparr>) [] = (None, [])
   \<and> os_Stat (demoOs []) ''/root/pkg/notes.txt''
       = Inr \<lparr>Name = ''notes.txt'', Mode_IsRegular = True, IsDir = False\<rparr>
   \<and> main_paths demoOs demoSettings [''/root/pkg/notes.txt''] 0 []
       = (0, [Stat ''/root/pkg/notes.txt'', Stat ''/root/pkg/.go_license_header'',
              ReadFile ''/root/pkg/.go_license_header'',
              Open ''/root/pkg/notes.txt'', ReadAll (File ''/root/pkg/notes.txt''),
              Write os_Stdout ''// H1\<newline>// H2\<newline>\<newline>package notes\<newline>''])
   \<and> os_Stat (demoOs []) ''/root/other''
     = Inr \<lparr>Name = ''other'', Mode_IsRegular = False, IsDir = True\<rparr>
   \<and> filepath_Walk_entries (demoOs [Stat ''/root/other'']) ''/root/other''
       = [(''/root/other'', Inr \<lparr>Name = ''other'', Mode_IsRegular = False, IsDir = True\<rparr>),
          (''/root/other/doc.txt'', Inr \<lparr>Name = ''doc.txt'', Mode_IsRegular = True, IsDir = False\<rparr>),
          (''/root/other/f.go'', Inr \<lparr>Name = ''f.go'', Mode_IsRegular = True, IsDir = False\<rparr>)]
   \<and> filepath_Walk demoOs ''/root/other'' (visitFile demoOs demoSettings) [Stat ''/root/other'']
       = (None, [Stat ''/root/other'', Stat ''/root/other/.go_license_header'',
                 Open ''/root/other/f.go'', ReadAll (File ''/root/other/f.go''),
                 Write os_Stdout ''package other\<newline>''])
   \<and> main_paths demoOs demoSettings [''/root/other''] 0 []
       = (0, [Stat ''/root/other'', Stat ''/root/other/.go_license_header'',
              Open ''/root/other/f.go'', ReadAll (File ''/root/other/f.go''),
              Write os_Stdout ''package other\<newline>''])"
proof -
  let ?readme = "\<lparr>Name = ''README.md'', Mode_IsRegular = True, IsDir = False\<rparr>"
  let ?notes = "\<lparr>Name = ''notes.txt'', Mode_IsRegular = True, IsDir = False\<rparr>"
  have g1: "isGoFile \<lparr>Name = ''a.go'', Mode_IsRegular = True, IsDir = False\<rparr>"
    using visitFile_filter [where fi = "\<lparr>Name = ''a.go'', Mode_IsRegular = True, IsDir = False\<rparr>",
        THEN conjunct1]
    by (simp add: suffix_to_prefix)
  have g2: "\<not> isGoFile \<lparr>Name = ''.a.go'', Mode_IsRegular = True, IsDir = False\<rparr>"
    using visitFile_filter [where fi = "\<lparr>Name = ''.a.go'', Mode_IsRegular = True, IsDir = False\<rparr>",
        THEN conjunct1]
    by simp
  have g3: "\<not> isGoFile ?readme"
    using visitFile_filter [where fi = ?readme, THEN conjunct1]
    by (simp add: suffix_to_prefix)
  have g4: "\<not> isGoFile \<lparr>Name = ''d.go'', Mode_IsRegular = False, IsDir = True\<rparr>"
    using visitFile_filter [where fi = "\<lparr>Name = ''d.go'', Mode_IsRegular = False, IsDir = True\<rparr>",
        THEN conjunct1]
    by simp
  have v: "visitFile demoOs demoSettings ''/root/bad/README.md'' (Inr ?readme) [] = (None, [])"
    using visitFile_filter [where fi = ?readme and os = demoOs and s = demoSettings
          and path = "''/root/bad/README.md''" and tr = "[]", THEN conjunct2, THEN conjunct1] g3
    by simp
  have st: "os_Stat (demoOs []) ''/root/pkg/notes.txt'' = Inr ?notes"
    by (simp add: demo_defs)
  have nd: "\<not> IsDir ?notes" by simp
  have out: "processFile demoOs demoSettings ''/root/pkg/notes.txt'' None os_Stdout False
               [Stat ''/root/pkg/notes.txt'']
             = (None, [Stat ''/root/pkg/notes.txt'', Stat ''/root/pkg/.go_license_header'',
                       ReadFile ''/root/pkg/.go_license_header'',
                       Open ''/root/pkg/notes.txt'', ReadAll (File ''/root/pkg/notes.txt''),
                       Write os_Stdout ''// H1\<newline>// H2\<newline>\<newline>package notes\<newline>''])"
    by (simp add: processFile_after_pipeline [OF demo_pipeline_notes] processFile_output_def)
       (simp add: demoSettings_def)
  from visitFile_filter [where fi = ?notes and os = demoOs and s = demoSettings
          and path = "''/root/pkg/notes.txt''" and tr = "[]" and paths = "[]" and exitCode = 0,
          THEN conjunct2, THEN conjunct2, THEN conjunct1] st nd
  have "main_paths demoOs demoSettings [''/root/pkg/notes.txt''] 0 []
          = (case processFile demoOs demoSettings ''/root/pkg/notes.txt'' None os_Stdout False
                    ([] @ [Stat ''/root/pkg/notes.txt'']) of
               (Some err, tr1) \<Rightarrow> main_paths demoOs demoSettings [] 1 (tr1 @ [Log (Error_msg err)])
             | (None, tr1) \<Rightarrow> main_paths demoOs demoSettings [] 0 tr1)"
    by blast
  then have m: "main_paths demoOs demoSettings [''/root/pkg/notes.txt''] 0 []
       = (0, [Stat ''/root/pkg/notes.txt'', Stat ''/root/pkg/.go_license_header'',
              ReadFile ''/root/pkg/.go_license_header'',
              Open ''/root/pkg/notes.txt'', ReadAll (File ''/root/pkg/notes.txt''),
              Write os_Stdout ''// H1\<newline>// H2\<newline>\<newline>package notes\<newline>''])"
    by (simp add: out)
  let ?dir = "\<lparr>Name = ''other'', Mode_IsRegular = False, IsDir = True\<rparr>"
  let ?doc = "\<lparr>Name = ''doc.txt'', Mode_IsRegular = True, IsDir = False\<rparr>"
  let ?go = "\<lparr>Name = ''f.go'', Mode_IsRegular = True, IsDir = False\<rparr>"
  let ?visit = "\<lambda>tr' e. snd (visitFile demoOs demoSettings (fst e) (snd e) tr')"
  have stO: "os_Stat (demoOs []) ''/root/other'' = Inr ?dir"
    by (simp add: demo_defs)
  have isd: "IsDir ?dir" by simp
  have ent: "filepath_Walk_entries (demoOs [Stat ''/root/other'']) ''/root/other''
               = [(''/root/other'', Inr ?dir), (''/root/other/doc.txt'', Inr ?doc),
                  (''/root/other/f.go'', Inr ?go)]"
    by (simp add: demo_defs)
  have pf: "processFile demoOs demoSettings ''/root/other/f.go'' None os_Stdout False
              [Stat ''/root/other'']
            = (None, [Stat ''/root/other'', Stat ''/root/other/.go_license_header'',
                      Open ''/root/other/f.go'', ReadAll (File ''/root/other/f.go''),
                      Write os_Stdout ''package other\<newline>''])"
    by (simp add: processFile_after_pipeline [OF demo_pipeline_other] processFile_output_def)
       (simp add: demo_defs)
  have gd: "\<not> isGoFile ?dir"
    using visitFile_filter [where fi = ?dir, THEN conjunct1] by simp
  have gt: "\<not> isGoFile ?doc"
    using visitFile_filter [where fi = ?doc, THEN conjunct1] by (simp add: suffix_to_prefix)
  have gg: "isGoFile ?go"
    using visitFile_filter [where fi = ?go, THEN conjunct1] by (simp add: suffix_to_prefix)
  have v1: "visitFile demoOs demoSettings ''/root/other'' (Inr ?dir) [Stat ''/root/other'']
              = (None, [Stat ''/root/other''])"
    using visitFile_filter [where fi = ?dir and os = demoOs and s = demoSettings
          and path = "''/root/other''" and tr = "[Stat ''/root/other'']",
          THEN conjunct2, THEN conjunct1] gd
    by simp
  have v2: "visitFile demoOs demoSettings ''/root/other/doc.txt'' (Inr ?doc) [Stat ''/root/other'']
              = (None, [Stat ''/root/other''])"
    using visitFile_filter [where fi = ?doc and os = demoOs and s = demoSettings
          and path = "''/root/other/doc.txt''" and tr = "[Stat ''/root/other'']",
          THEN conjunct2, THEN conjunct1] gt
    by simp
  have v3: "visitFile demoOs demoSettings ''/root/other/f.go'' (Inr ?go) [Stat ''/root/other'']
              = (None, [Stat ''/root/other'', Stat ''/root/other/.go_license_header'',
                        Open ''/root/other/f.go'', ReadAll (File ''/root/other/f.go''),
                        Write os_Stdout ''package other\<newline>''])"
    using visitFile_filter [where fi = ?go and os = demoOs and s = demoSettings
          and path = "''/root/other/f.go''" and tr = "[Stat ''/root/other'']",
          THEN conjunct2, THEN conjunct1] gg
    by (simp add: pf)
  have fold: "foldl ?visit [Stat ''/root/other'']
                (filepath_Walk_entries (demoOs [Stat ''/root/other'']) ''/root/other'')
              = [Stat ''/root/other'', Stat ''/root/other/.go_license_header'',
                 Open ''/root/other/f.go'', ReadAll (File ''/root/other/f.go''),
                 Write os_Stdout ''package other\<newline>'']"
    by (simp add: ent v1 v2 v3)
  from visitFile_filter [where os = demoOs and s = demoSettings and root = "''/root/other''"
          and tr = "[Stat ''/root/other'']",
          THEN conjunct2, THEN conjunct2, THEN conjunct2, THEN conjunct2, THEN conjunct2,
          THEN conjunct2]
  have wk: "filepath_Walk demoOs ''/root/other'' (visitFile demoOs demoSettings)
              [Stat ''/root/other'']
            = (None, [Stat ''/root/other'', Stat ''/root/other/.go_license_header'',
                      Open ''/root/other/f.go'', ReadAll (File ''/root/other/f.go''),
                      Write os_Stdout ''package other\<newline>''])"
    by (simp add: fold)
  from visitFile_filter [where fi = ?dir and os = demoOs and s = demoSettings
          and path = "''/root/other''" and tr = "[]" and paths = "[]" and exitCode = 0,
          THEN conjunct2, THEN conjunct2, THEN conjunct2, THEN conjunct1] stO isd
  have "main_paths demoOs demoSettings [''/root/other''] 0 []
          = main_paths demoOs demoSettings [] 0
              (foldl ?visit ([] @ [Stat ''/root/other''])
                 (filepath_Walk_entries (demoOs ([] @ [Stat ''/root/other''])) ''/root/other''))"
    by blast
  then have m2: "main_paths demoOs demoSettings [''/root/other''] 0 []
       = (0, [Stat ''/root/other'', Stat ''/root/other/.go_license_header'',
              Open ''/root/other/f.go'', ReadAll (File ''/root/other/f.go''),
              Write os_Stdout ''package other\<newline>''])"
    by (simp add: fold)
  from g1 g2 g3 g4 v st m stO ent wk m2 show ?thesis by (intro conjI)
qed

text \<open>
  C9 on the code: an error on a file met in a walk is logged and the exit code stays 0.
  In the small tree the formatter rejects \<^verbatim>\<open>/root/bad/bad.go\<close>. Given the directory
  \<^verbatim>\<open>/root/bad\<close>, the program logs the error and exits with 0; given the file itself,
  it logs the same error and exits with 1.
\<close>

theorem walk_error_exits_zero:
  "main demoOs demoSettings [''/root/bad''] []
     = (0, [Stat ''/root/bad'', Stat ''/root/bad/.go_license_header'',
            Open ''/root/bad/bad.go'', ReadAll (File ''/root/bad/bad.go''),
            Log ''/root/bad/bad.go:1:8: expected IDENT, found newline''])
   \<and> main demoOs demoSettings [''/root/bad/bad.go''] []
       = (1, [Stat ''/root/bad/bad.go'', Stat ''/root/bad/.go_license_header'',
              Open ''/root/bad/bad.go'', ReadAll (File ''/root/bad/bad.go''),
              Log ''/root/bad/bad.go:1:8: expected IDENT, found newline''])"
proof -
  have p1: "processFile_pipeline demoOs demoSettings ''/root/bad/bad.go'' None [Stat ''/root/bad'']
              = (Inl (Error ''/root/bad/bad.go:1:8: expected IDENT, found newline''),
                 [Stat ''/root/bad'', Stat ''/root/bad/.go_license_header'',
                  Open ''/root/bad/bad.go'', ReadAll (File ''/root/bad/bad.go'')])"
    by (simp add: run_defs demo_defs path_defs)
  have p2: "processFile_pipeline demoOs demoSettings ''/root/bad/bad.go'' None
                [Stat ''/root/bad/bad.go'']
              = (Inl (Error ''/root/bad/bad.go:1:8: expected IDENT, found newline''),
                 [Stat ''/root/bad/bad.go'', Stat ''/root/bad/.go_license_header'',
                  Open ''/root/bad/bad.go'', ReadAll (File ''/root/bad/bad.go'')])"
    by (simp add: run_defs demo_defs path_defs)
  have f1: "processFile demoOs demoSettings ''/root/bad/bad.go'' None os_Stdout False [Stat ''/root/bad'']
              = (Some (Error ''/root/bad/bad.go:1:8: expected IDENT, found newline''),
                 [Stat ''/root/bad'', Stat ''/root/bad/.go_license_header'',
                  Open ''/root/bad/bad.go'', ReadAll (File ''/root/bad/bad.go'')])"
    by (simp add: processFile_def p1)
  have f2: "processFile demoOs demoSettings ''/root/bad/bad.go'' None os_Stdout False
                [Stat ''/root/bad/bad.go'']
              = (Some (Error ''/root/bad/bad.go:1:8: expected IDENT, found newline''),
                 [Stat ''/root/bad/bad.go'', Stat ''/root/bad/.go_license_header'',
                  Open ''/root/bad/bad.go'', ReadAll (File ''/root/bad/bad.go'')])"
    by (simp add: processFile_def p2)
  have st1: "os_Stat (demoOs []) ''/root/bad''
               = Inr \<lparr>Name = ''bad'', Mode_IsRegular = False, IsDir = True\<rparr>"
    by (simp add: demo_defs)
  have st2: "os_Stat (demoOs []) ''/root/bad/bad.go''
               = Inr \<lparr>Name = ''bad.go'', Mode_IsRegular = True, IsDir = False\<rparr>"
    by (simp add: demo_defs)
  have entries: "filepath_Walk_entries (demoOs [Stat ''/root/bad'']) ''/root/bad''
                   = [(''/root/bad'', Inr \<lparr>Name = ''bad'', Mode_IsRegular = False, IsDir = True\<rparr>),
                      (''/root/bad/README.md'',
                       Inr \<lparr>Name = ''README.md'', Mode_IsRegular = True, IsDir = False\<rparr>),
                      (''/root/bad/bad.go'',
                       Inr \<lparr>Name = ''bad.go'', Mode_IsRegular = True, IsDir = False\<rparr>)]"
    by (simp add: demo_defs)
  have a: "main demoOs demoSettings [''/root/bad''] []
     = (0, [Stat ''/root/bad'', Stat ''/root/bad/.go_license_header'',
            Open ''/root/bad/bad.go'', ReadAll (File ''/root/bad/bad.go''),
            Log ''/root/bad/bad.go:1:8: expected IDENT, found newline''])"
    by (simp add: main_def st1 filepath_Walk_def entries visitFile_def isGoFile_def
          strings_HasPrefix_def strings_HasSuffix_def f1)
  have b: "main demoOs demoSettings [''/root/bad/bad.go''] []
       = (1, [Stat ''/root/bad/bad.go'', Stat ''/root/bad/.go_license_header'',
              Open ''/root/bad/bad.go'', ReadAll (File ''/root/bad/bad.go''),
              Log ''/root/bad/bad.go:1:8: expected IDENT, found newline''])"
    by (simp add: main_def st2 f2)
  from a b show ?thesis by (intro conjI)
qed


end
